theory Spec2Isabelle
  imports Main "HOL-Library.AList" "HOL-Library.Multiset"
begin

section \<open>Python values and dictionaries\<close>

text \<open>
  The generator works on the normalized specification object, a tree of Python
  dictionaries, lists and scalars. Floating-point scalars are left out. A dictionary is
  an association list in insertion order, as Python iterates it.
\<close>

datatype pyval =
    PNone
  | PBool bool
  | PInt int
  | PStr string
  | PList "pyval list"
  | PDict "(string \<times> pyval) list"

type_synonym pdict = "(string \<times> pyval) list"

text \<open>Python truthiness, the test behind \<open>if val\<close> and \<open>not val\<close>.\<close>

fun truthy :: "pyval \<Rightarrow> bool" where
  "truthy PNone = False"
| "truthy (PBool b) = b"
| "truthy (PInt i) = (i \<noteq> 0)"
| "truthy (PStr s) = (s \<noteq> [])"
| "truthy (PList xs) = (xs \<noteq> [])"
| "truthy (PDict d) = (d \<noteq> [])"

text \<open>\<open>d.get(k)\<close>: the value stored under \<open>k\<close>, \<open>None\<close> when the key is absent.\<close>

definition dget :: "pdict \<Rightarrow> string \<Rightarrow> pyval" where
  "dget d k = (case map_of d k of None \<Rightarrow> PNone | Some v \<Rightarrow> v)"

section \<open>Strings\<close>

text \<open>The decimal rendering of a counter inside an f-string.\<close>

function str_nat :: "nat \<Rightarrow> string" where
  "str_nat n =
     (if n < 10 then [''0123456789'' ! n]
      else str_nat (n div 10) @ [''0123456789'' ! (n mod 10)])"
  by pat_completeness auto
termination
  by (relation "measure id") auto

declare str_nat.simps [simp del]

text \<open>\<open>sep.join(xs)\<close>.\<close>

fun join :: "string \<Rightarrow> string list \<Rightarrow> string" where
  "join sep [] = []"
| "join sep [x] = x"
| "join sep (x # y # ys) = x @ sep @ join sep (y # ys)"

text \<open>
  \<open>s.lower()\<close> on the ASCII letters; no character outside ASCII lower-cases to a
  letter of \<open>header\<close>, the only string the result is compared with.
\<close>

definition lower_char :: "char \<Rightarrow> char" where
  "lower_char c =
     (case map_of (zip ''ABCDEFGHIJKLMNOPQRSTUVWXYZ'' ''abcdefghijklmnopqrstuvwxyz'') c of
        None \<Rightarrow> c
      | Some l \<Rightarrow> l)"

definition lower :: "string \<Rightarrow> string" where
  "lower s = map lower_char s"

section \<open>Templates and builtins used by the generator\<close>

text \<open>
  The module \<open>swagger2locustio.templates.locustfile_templates\<close> is not part of the
  sources at hand, so every template is a parameter: a field holds what \<open>render\<close> returns
  for the keyword arguments the generator passes, in the order it passes them. The field
  \<open>repr\<close> is Python's builtin of that name.
\<close>

record env =
  FUNC_TEMPLATE ::
    "string \<Rightarrow> string \<Rightarrow> string \<Rightarrow> string \<Rightarrow> string \<Rightarrow> string \<Rightarrow> string \<Rightarrow> string"
  PATH_PARAM_PAIR_TEMPLATE :: "pyval \<Rightarrow> string \<Rightarrow> string"
  DICT_PARAM_PAIR_TEMPLATE :: "pyval \<Rightarrow> string \<Rightarrow> string"
  AUTH_BASIC_TEMPLATE :: string
  AUTH_KEY_HEADER_TEMPLATE :: "pyval \<Rightarrow> string"
  FILE_TEMPLATE :: "string \<Rightarrow> string \<Rightarrow> string option \<Rightarrow> string \<Rightarrow> string"
  repr :: "pyval \<Rightarrow> string"

text \<open>
  \<open>str(v)\<close>, which an f-string applies to an interpolated value: a string is rendered as
  itself, every other value of the model as \<open>repr\<close> renders it.
\<close>

definition py_str :: "env \<Rightarrow> pyval \<Rightarrow> string" where
  "py_str E v = (case v of PStr s \<Rightarrow> s | _ \<Rightarrow> repr E v)"

section \<open>Errors\<close>

text \<open>
  The generator raises \<open>ValueError\<close> at three places, told apart by their arguments:
  an unknown \<open>in\<close> value (parameter name, location, configuration), a missing default
  at strict level 2 (location, parameter name), and a rejected \<open>apiKey\<close> scheme (its
  configuration). \<open>AttributeError\<close> is what \<open>location.lower()\<close> raises when the
  location is not a string.
\<close>

datatype value_error =
    NotValidIn string pyval pdict
  | NoDefaultValue pyval string
  | SecurityConfig pdict

datatype error = ValueError value_error | AttributeError

section \<open>The combination enumerator\<close>

text \<open>
  \<open>itertools.combinations(xs, k)\<close>: the \<open>k\<close>-element subsequences of \<open>xs\<close>, chosen by
  position, in lexicographic order of the chosen positions.
\<close>

fun combinations :: "'a list \<Rightarrow> nat \<Rightarrow> 'a list list" where
  "combinations xs 0 = [[]]"
| "combinations [] (Suc k) = []"
| "combinations (x # xs) (Suc k) =
     map (Cons x) (combinations xs k) @ combinations xs (Suc k)"

record bucket =
  required :: "pdict list"
  not_required :: "pdict list"

text \<open>
  \<open>_create_params_combinations\<close>: for every size from 0 to the number of optional
  parameters, and every combination of that size, a copy of the required list followed by
  the combination.
\<close>

definition create_params_combinations :: "bucket \<Rightarrow> pdict list list" where
  "create_params_combinations b =
     (let not_required_query_params = not_required b;
          required_query_params = required b
      in concat (map (\<lambda>combination_count.
                   map (\<lambda>not_required_combination.
                          required_query_params @ not_required_combination)
                       (combinations not_required_query_params combination_count))
                 [0 ..< length not_required_query_params + 1]))"

text \<open>
  The positions of the optional list that the enumerator picks, in the order it picks
  them: all sizes from 0 to \<open>n\<close>, and per size the combinations of \<open>[0, ..., n - 1]\<close>.
\<close>

definition chosen_positions :: "nat \<Rightarrow> nat list list" where
  "chosen_positions n = concat (map (combinations [0 ..< n]) [0 ..< n + 1])"

text \<open>The order the specification names: by size, then lexicographic.\<close>

definition size_then_lex :: "nat list \<Rightarrow> nat list \<Rightarrow> bool" where
  "size_then_lex a b \<longleftrightarrow>
     length a < length b \<or> (length a = length b \<and> (a, b) \<in> lexord {(i, j). i < j})"

section \<open>The parameter extractor\<close>

text \<open>One value per location, as the dictionaries keyed \<open>path_params\<close>, ... are.\<close>

record 'a by_location =
  path_params :: 'a
  query_params :: 'a
  header_params :: 'a
  cookie_params :: 'a

datatype target = QueryParams | PathParams | HeaderParams | CookieParams

text \<open>The \<open>if\<close>/\<open>elif\<close> chain on \<open>param_location\<close>; \<open>None\<close> is its \<open>else\<close>.\<close>

definition target_of :: "pyval \<Rightarrow> target option" where
  "target_of param_location =
     (if param_location = PStr ''query'' then Some QueryParams
      else if param_location = PStr ''path'' then Some PathParams
      else if param_location = PStr ''header'' then Some HeaderParams
      else if param_location = PStr ''cookie'' then Some CookieParams
      else None)"

text \<open>\<open>params[required_type].append(param_config)\<close>.\<close>

definition bucket_append :: "pyval \<Rightarrow> pdict \<Rightarrow> bucket \<Rightarrow> bucket" where
  "bucket_append required_val param_config b =
     (if truthy required_val then b\<lparr>required := required b @ [param_config]\<rparr>
      else b\<lparr>not_required := not_required b @ [param_config]\<rparr>)"

fun target_append ::
  "target \<Rightarrow> pyval \<Rightarrow> pdict \<Rightarrow> bucket by_location \<Rightarrow> bucket by_location" where
  "target_append QueryParams r c ex = ex\<lparr>query_params := bucket_append r c (query_params ex)\<rparr>"
| "target_append PathParams r c ex = ex\<lparr>path_params := bucket_append r c (path_params ex)\<rparr>"
| "target_append HeaderParams r c ex = ex\<lparr>header_params := bucket_append r c (header_params ex)\<rparr>"
| "target_append CookieParams r c ex = ex\<lparr>cookie_params := bucket_append r c (cookie_params ex)\<rparr>"

text \<open>The body of the loop of \<open>_extract_params\<close> for one item of the parameter map.\<close>

definition extract_param ::
  "int \<Rightarrow> string \<times> pdict \<Rightarrow> bucket by_location \<Rightarrow> value_error + bucket by_location" where
  "extract_param strict_level = (\<lambda>(param, param_config) ex.
     (let param_location = dget param_config ''in'';
          required_val = dget param_config ''required'';
          default_val = dget param_config ''default''
      in case target_of param_location of
           None \<Rightarrow> Inl (NotValidIn param param_location param_config)
         | Some target_params \<Rightarrow>
             if strict_level = 0
               then Inr (target_append target_params required_val param_config ex)
             else if strict_level = 1 \<and>
                     (truthy default_val \<or> (\<not> truthy default_val \<and> truthy required_val))
               then Inr (target_append target_params required_val param_config ex)
             else if strict_level = 2
               then (if truthy default_val
                     then Inr (target_append target_params required_val param_config ex)
                     else Inl (NoDefaultValue param_location param))
             else Inr ex))"

fun extract_loop ::
  "int \<Rightarrow> (string \<times> pdict) list \<Rightarrow> bucket by_location \<Rightarrow> value_error + bucket by_location"
where
  "extract_loop strict_level [] ex = Inr ex"
| "extract_loop strict_level (p # ps) ex =
     (case extract_param strict_level p ex of
        Inl e \<Rightarrow> Inl e
      | Inr ex' \<Rightarrow> extract_loop strict_level ps ex')"

definition empty_bucket :: bucket where
  "empty_bucket = \<lparr>required = [], not_required = []\<rparr>"

definition extract_params ::
  "int \<Rightarrow> (string \<times> pdict) list \<Rightarrow> value_error + bucket by_location" where
  "extract_params strict_level ps =
     extract_loop strict_level ps
       \<lparr>path_params = empty_bucket, query_params = empty_bucket,
        header_params = empty_bucket, cookie_params = empty_bucket\<rparr>"

definition generate_params ::
  "int \<Rightarrow> (string \<times> pdict) list \<Rightarrow> value_error + pdict list list by_location" where
  "generate_params strict_level ps =
     (case extract_params strict_level ps of
        Inl e \<Rightarrow> Inl e
      | Inr extracted_params \<Rightarrow>
          Inr \<lparr>path_params = create_params_combinations (path_params extracted_params),
               query_params = create_params_combinations (query_params extracted_params),
               header_params = create_params_combinations (header_params extracted_params),
               cookie_params = create_params_combinations (cookie_params extracted_params)\<rparr>)"

section \<open>Value resolution and the case assembler\<close>

text \<open>
  \<open>self.vars_without_values\<close>: a dictionary from placeholder name to parameter
  configuration. \<open>AList.update\<close> is Python's item assignment: an existing key keeps
  its place and takes the new value, a new key goes to the end.
\<close>

type_synonym vars_table = "(string \<times> pdict) list"

text \<open>The body of the loop of \<open>_format_params\<close> for one parameter.\<close>

definition format_param ::
  "env \<Rightarrow> nat \<Rightarrow> string \<Rightarrow> pdict \<Rightarrow> string list \<times> vars_table \<Rightarrow> string list \<times> vars_table"
where
  "format_param E test_count param_type param = (\<lambda>(acc, vars).
     (let name = dget param ''name'';
          val = dget param ''default'';
          (val', vars') =
            (if \<not> truthy val
             then (let v = py_str E name @ ''_test_'' @ str_nat test_count
                   in (v, AList.update v param vars))
             else (repr E val, vars))
      in if param_type = ''path''
         then (acc @ [PATH_PARAM_PAIR_TEMPLATE E name val'], vars')
         else (acc @ [DICT_PARAM_PAIR_TEMPLATE E name val'], vars')))"

definition format_params ::
  "env \<Rightarrow> pdict list \<Rightarrow> nat \<Rightarrow> string \<Rightarrow> vars_table \<Rightarrow> string \<times> vars_table" where
  "format_params E raw_params test_count param_type vars =
     (let (acc, vars') = fold (format_param E test_count param_type) raw_params ([], vars);
          formatted_params =
            (if param_type = ''path''
             then (if acc \<noteq> [] then '', '' @ join '', '' acc else '''')
             else (if acc = [] then ''{}'' else ''{'' @ join '', '' acc @ ''}''))
      in (formatted_params, vars'))"

text \<open>
  The body of the innermost loop of \<open>generate_test_cases\<close>: the four parameter blocks
  are formatted in argument order, the rendered function is appended and the case
  counter goes up by one. The triple is \<open>(funcs, case, vars_without_values)\<close>.
\<close>

definition emit_case ::
  "env \<Rightarrow> nat \<Rightarrow> string \<Rightarrow> string \<Rightarrow> pdict list \<Rightarrow> pdict list \<Rightarrow> pdict list \<Rightarrow> pdict list \<Rightarrow>
     string list \<times> nat \<times> vars_table \<Rightarrow> string list \<times> nat \<times> vars_table" where
  "emit_case E test_count method path path_parameters query_parameters header_parameters
       cookie_parameters = (\<lambda>(fs, case_n, vars).
     (let (pp, v1) = format_params E path_parameters test_count ''path'' vars;
          (qp, v2) = format_params E query_parameters test_count ''query'' v1;
          (hp, v3) = format_params E header_parameters test_count ''header'' v2;
          (cp, v4) = format_params E cookie_parameters test_count ''cookie'' v3
      in (fs @ [FUNC_TEMPLATE E (''test_'' @ str_nat test_count @ ''_case_'' @ str_nat case_n)
                  method path pp qp hp cp],
          case_n + 1, v4)))"

text \<open>The four nested loops over the combination lists of one operation.\<close>

definition assemble_cases ::
  "env \<Rightarrow> nat \<Rightarrow> string \<Rightarrow> string \<Rightarrow> pdict list list by_location \<Rightarrow>
     string list \<times> nat \<times> vars_table \<Rightarrow> string list \<times> nat \<times> vars_table" where
  "assemble_cases E test_count method path params_combinations =
     fold (\<lambda>path_parameters.
       fold (\<lambda>query_parameters.
         fold (\<lambda>header_parameters.
           fold (\<lambda>cookie_parameters.
                  emit_case E test_count method path path_parameters query_parameters
                    header_parameters cookie_parameters)
             (cookie_params params_combinations))
           (header_params params_combinations))
         (query_params params_combinations))
       (path_params params_combinations)"

section \<open>The orchestrator\<close>

record method_data =
  params :: "(string \<times> pdict) list option"

record gen_state =
  funcs :: "string list"
  test_count :: nat
  vars_without_values :: vars_table
  warnings :: "error list"

text \<open>
  The body of the loop over the methods of a path: \<open>case = 0\<close>, the guarded call of
  \<open>generate_params\<close> (a \<open>ValueError\<close> is logged and the loop continues), the nested loops,
  and \<open>test_count += 1\<close>.
\<close>

definition process_operation ::
  "env \<Rightarrow> int \<Rightarrow> string \<Rightarrow> string \<times> method_data \<Rightarrow> gen_state \<Rightarrow> gen_state" where
  "process_operation E strict_level path = (\<lambda>(method, md) st.
     case generate_params strict_level (case params md of None \<Rightarrow> [] | Some ps \<Rightarrow> ps) of
       Inl e \<Rightarrow> st\<lparr>warnings := warnings st @ [ValueError e]\<rparr>
     | Inr params_combinations \<Rightarrow>
         (let (fs, case_n, vars) =
                assemble_cases E (test_count st) method path params_combinations
                  (funcs st, 0, vars_without_values st)
          in st\<lparr>funcs := fs, test_count := test_count st + 1, vars_without_values := vars\<rparr>))"

type_synonym paths_data = "(string \<times> (string \<times> method_data) list) list"

definition run_operations :: "env \<Rightarrow> int \<Rightarrow> paths_data \<Rightarrow> gen_state \<Rightarrow> gen_state" where
  "run_operations E strict_level paths_data =
     fold (\<lambda>(path, methods_data). fold (process_operation E strict_level path) methods_data)
       paths_data"

text \<open>
  \<open>generate_test_cases\<close> on a generator whose placeholder table is \<open>vars\<close>: the final
  state of the loops; the method returns the concatenation of its \<open>funcs\<close>.
\<close>

definition generate_test_cases :: "env \<Rightarrow> int \<Rightarrow> vars_table \<Rightarrow> paths_data \<Rightarrow> gen_state" where
  "generate_test_cases E strict_level vars paths_data =
     run_operations E strict_level paths_data
       \<lparr>funcs = [], test_count = 0, vars_without_values = vars, warnings = []\<rparr>"

section \<open>The security case builder\<close>

definition security_case :: "env \<Rightarrow> string \<times> pdict \<Rightarrow> string list \<Rightarrow> error + string list" where
  "security_case E = (\<lambda>(security_type, security_config) security_cases.
     if security_type = ''BasicAuth'' then Inr (security_cases @ [AUTH_BASIC_TEMPLATE E])
     else if security_type = ''apiKey'' then
       (let location = dget security_config ''in'';
            name = dget security_config ''name''
        in case location of
             PStr l \<Rightarrow>
               if lower l = ''header'' \<and> truthy name
               then Inr (security_cases @ [AUTH_KEY_HEADER_TEMPLATE E name])
               else Inl (ValueError (SecurityConfig security_config))
           | _ \<Rightarrow> Inl AttributeError)
     else Inr security_cases)"

fun security_loop :: "env \<Rightarrow> (string \<times> pdict) list \<Rightarrow> string list \<Rightarrow> error + string list" where
  "security_loop E [] security_cases = Inr security_cases"
| "security_loop E (s # ss) security_cases =
     (case security_case E s security_cases of
        Inl e \<Rightarrow> Inl e
      | Inr security_cases' \<Rightarrow> security_loop E ss security_cases')"

definition generate_security_cases :: "env \<Rightarrow> (string \<times> pdict) list \<Rightarrow> error + string" where
  "generate_security_cases E security_data =
     (case security_loop E security_data [] of
        Inl e \<Rightarrow> Inl e
      | Inr security_cases \<Rightarrow> Inr (concat security_cases))"

section \<open>The final script\<close>

text \<open>One declaration line per placeholder: \<open>f'{var} = "#"  # {var_data}'\<close>.\<close>

definition required_var_line :: "env \<Rightarrow> string \<times> pdict \<Rightarrow> string" where
  "required_var_line E = (\<lambda>(var, var_data).
     var @ [CHR '' '', CHR ''='', CHR '' '', CHR 0x22, CHR ''#'', CHR 0x22, CHR '' '', CHR '' '',
            CHR ''#'', CHR '' ''] @ py_str E (PDict var_data))"

definition generate_code_from_template ::
  "env \<Rightarrow> vars_table \<Rightarrow> string \<Rightarrow> string option \<Rightarrow> string \<Rightarrow> string" where
  "generate_code_from_template E vars test_cases security_cases host_val =
     (let required_vars = map (required_var_line E) vars;
          vars_str = join [CHR 0x0A] required_vars
      in FILE_TEMPLATE E vars_str test_cases security_cases host_val)"

record swagger_data =
  paths :: paths_data
  security :: "(string \<times> pdict) list option"
  host :: string

text \<open>
  \<open>generate_locustfile\<close> on a generator with strict level \<open>strict_level\<close> and placeholder
  table \<open>vars\<close>. The result is the script or the exception that ends the call, together
  with the placeholder table and the warnings the call leaves behind.
\<close>

definition generate_locustfile ::
  "env \<Rightarrow> int \<Rightarrow> vars_table \<Rightarrow> swagger_data \<Rightarrow> (error + string) \<times> vars_table \<times> error list" where
  "generate_locustfile E strict_level vars sd =
     (let st = generate_test_cases E strict_level vars (paths sd);
          test_cases = concat (funcs st);
          vars' = vars_without_values st
      in case security sd of
           None \<Rightarrow>
             (Inr (generate_code_from_template E vars' test_cases None (host sd)),
              vars', warnings st)
         | Some security_data \<Rightarrow>
             if security_data = []
             then (Inr (generate_code_from_template E vars' test_cases None (host sd)),
                   vars', warnings st)
             else (case generate_security_cases E security_data of
                     Inl e \<Rightarrow> (Inl e, vars', warnings st)
                   | Inr security_cases \<Rightarrow>
                       (Inr (generate_code_from_template E vars' test_cases
                               (Some security_cases) (host sd)),
                        vars', warnings st)))"

section \<open>What the case assembler computes\<close>

text \<open>
  The placeholder token of a parameter in the operation with sequence number
  \<open>op_seq\<close>, and the text that stands for the parameter's value: the literal of a
  non-empty default, the token otherwise.
\<close>

definition token :: "env \<Rightarrow> pdict \<Rightarrow> nat \<Rightarrow> string" where
  "token E param op_seq = py_str E (dget param ''name'') @ ''_test_'' @ str_nat op_seq"

definition value_text :: "env \<Rightarrow> pdict \<Rightarrow> nat \<Rightarrow> string" where
  "value_text E param op_seq =
     (if truthy (dget param ''default'') then repr E (dget param ''default'')
      else token E param op_seq)"

text \<open>The placeholders a parameter list asks for, in order, and their registration.\<close>

definition placeholders :: "env \<Rightarrow> pdict list \<Rightarrow> nat \<Rightarrow> (string \<times> pdict) list" where
  "placeholders E raw_params op_seq =
     map (\<lambda>param. (token E param op_seq, param))
       (filter (\<lambda>param. \<not> truthy (dget param ''default'')) raw_params)"

definition register :: "(string \<times> pdict) list \<Rightarrow> vars_table \<Rightarrow> vars_table" where
  "register ws vars = fold (\<lambda>(k, v). AList.update k v) ws vars"

text \<open>The text of one parameter block.\<close>

definition pair_text :: "env \<Rightarrow> string \<Rightarrow> nat \<Rightarrow> pdict \<Rightarrow> string" where
  "pair_text E param_type op_seq param =
     (if param_type = ''path''
      then PATH_PARAM_PAIR_TEMPLATE E (dget param ''name'') (value_text E param op_seq)
      else DICT_PARAM_PAIR_TEMPLATE E (dget param ''name'') (value_text E param op_seq))"

definition format_text :: "env \<Rightarrow> pdict list \<Rightarrow> nat \<Rightarrow> string \<Rightarrow> string" where
  "format_text E raw_params op_seq param_type =
     (let acc = map (pair_text E param_type op_seq) raw_params
      in if param_type = ''path''
         then (if acc \<noteq> [] then '', '' @ join '', '' acc else '''')
         else (if acc = [] then ''{}'' else ''{'' @ join '', '' acc @ ''}''))"

text \<open>
  The cross product of the four combination lists, path slowest and cookie fastest, the
  test function of the tuple with case index \<open>n\<close>, and the placeholders of a tuple.
\<close>

type_synonym combo_tuple = "pdict list \<times> pdict list \<times> pdict list \<times> pdict list"

definition cross_product :: "pdict list list by_location \<Rightarrow> combo_tuple list" where
  "cross_product pc =
     concat (map (\<lambda>p. concat (map (\<lambda>q. concat (map (\<lambda>h. map (\<lambda>c. (p, q, h, c))
       (cookie_params pc)) (header_params pc))) (query_params pc))) (path_params pc))"

definition func_name :: "nat \<Rightarrow> nat \<Rightarrow> string" where
  "func_name op_seq case_n = ''test_'' @ str_nat op_seq @ ''_case_'' @ str_nat case_n"

definition render_case :: "env \<Rightarrow> nat \<Rightarrow> string \<Rightarrow> string \<Rightarrow> nat \<Rightarrow> combo_tuple \<Rightarrow> string" where
  "render_case E op_seq method path case_n = (\<lambda>(p, q, h, c).
     FUNC_TEMPLATE E (func_name op_seq case_n) method path
       (format_text E p op_seq ''path'') (format_text E q op_seq ''query'')
       (format_text E h op_seq ''header'') (format_text E c op_seq ''cookie''))"

fun render_cases :: "env \<Rightarrow> nat \<Rightarrow> string \<Rightarrow> string \<Rightarrow> nat \<Rightarrow> combo_tuple list \<Rightarrow> string list"
where
  "render_cases E op_seq method path n [] = []"
| "render_cases E op_seq method path n (t # ts) =
     render_case E op_seq method path n t #
     render_cases E op_seq method path (n + 1) ts"

definition tuple_placeholders :: "env \<Rightarrow> nat \<Rightarrow> combo_tuple \<Rightarrow> (string \<times> pdict) list" where
  "tuple_placeholders E op_seq = (\<lambda>(p, q, h, c).
     placeholders E p op_seq @ placeholders E q op_seq @
     placeholders E h op_seq @ placeholders E c op_seq)"

definition cases_effect ::
  "env \<Rightarrow> nat \<Rightarrow> string \<Rightarrow> string \<Rightarrow> combo_tuple list \<Rightarrow>
     string list \<times> nat \<times> vars_table \<Rightarrow> string list \<times> nat \<times> vars_table" where
  "cases_effect E op_seq method path ts = (\<lambda>(fs, n, vars).
     (fs @ render_cases E op_seq method path n ts, n + length ts,
      register (concat (map (tuple_placeholders E op_seq) ts)) vars))"

section \<open>What the parameter extractor computes\<close>

text \<open>
  The strictness policy as the code applies it: whether a parameter is put into its
  bucket at a strict level, whether its configuration passes without an error, and the
  error it raises when it does not. The code asks for a default with \<open>if default_val\<close>,
  the truthiness of the value stored under \<open>default\<close>: \<open>has_truthy_default\<close>. A declared
  default that is \<open>0\<close>, \<open>False\<close> or empty is not truthy. \<open>declares_default\<close> is the
  plain reading of \<open>has a default value\<close>: a value other than \<open>None\<close> is stored.
\<close>

definition has_truthy_default :: "pdict \<Rightarrow> bool" where
  "has_truthy_default cfg = truthy (dget cfg ''default'')"

definition declares_default :: "pdict \<Rightarrow> bool" where
  "declares_default cfg \<longleftrightarrow> dget cfg ''default'' \<noteq> PNone"

definition is_required :: "pdict \<Rightarrow> bool" where
  "is_required cfg = truthy (dget cfg ''required'')"

definition kept :: "int \<Rightarrow> pdict \<Rightarrow> bool" where
  "kept strict_level cfg \<longleftrightarrow>
     strict_level = 0
     \<or> (strict_level = 1 \<and> (has_truthy_default cfg \<or> is_required cfg))
     \<or> (strict_level = 2 \<and> has_truthy_default cfg)"

definition accepted :: "int \<Rightarrow> pdict \<Rightarrow> bool" where
  "accepted strict_level cfg \<longleftrightarrow>
     target_of (dget cfg ''in'') \<noteq> None \<and> (strict_level = 2 \<longrightarrow> has_truthy_default cfg)"

definition param_error :: "string \<times> pdict \<Rightarrow> value_error" where
  "param_error = (\<lambda>(param, cfg).
     if target_of (dget cfg ''in'') = None then NotValidIn param (dget cfg ''in'') cfg
     else NoDefaultValue (dget cfg ''in'') param)"

text \<open>The configurations of one location and requiredness that a strict level keeps.\<close>

definition select :: "target \<Rightarrow> bool \<Rightarrow> int \<Rightarrow> (string \<times> pdict) list \<Rightarrow> pdict list" where
  "select t r strict_level ps =
     filter (\<lambda>cfg. target_of (dget cfg ''in'') = Some t \<and> is_required cfg = r \<and>
                   kept strict_level cfg)
       (map snd ps)"

definition selected_bucket :: "target \<Rightarrow> int \<Rightarrow> (string \<times> pdict) list \<Rightarrow> bucket" where
  "selected_bucket t strict_level ps =
     \<lparr>required = select t True strict_level ps, not_required = select t False strict_level ps\<rparr>"

definition selected_buckets :: "int \<Rightarrow> (string \<times> pdict) list \<Rightarrow> bucket by_location" where
  "selected_buckets strict_level ps =
     \<lparr>path_params = selected_bucket PathParams strict_level ps,
      query_params = selected_bucket QueryParams strict_level ps,
      header_params = selected_bucket HeaderParams strict_level ps,
      cookie_params = selected_bucket CookieParams strict_level ps\<rparr>"

section \<open>What the orchestrator computes\<close>

text \<open>
  The operations of the specification in the order the two loops visit them, the
  parameter map of an operation, and the part of the generator state that reaches the
  generated script (everything but the log).
\<close>

definition operations :: "paths_data \<Rightarrow> (string \<times> string \<times> method_data) list" where
  "operations pd = concat (map (\<lambda>(path, methods_data). map (Pair path) methods_data) pd)"

definition operation_params :: "method_data \<Rightarrow> (string \<times> pdict) list" where
  "operation_params md = (case params md of None \<Rightarrow> [] | Some ps \<Rightarrow> ps)"

definition op_step :: "env \<Rightarrow> int \<Rightarrow> string \<times> string \<times> method_data \<Rightarrow> gen_state \<Rightarrow> gen_state" where
  "op_step E strict_level = (\<lambda>(path, op). process_operation E strict_level path op)"

definition extraction_succeeds :: "int \<Rightarrow> string \<times> string \<times> method_data \<Rightarrow> bool" where
  "extraction_succeeds strict_level = (\<lambda>(path, method, md).
     case generate_params strict_level (operation_params md) of
       Inl e \<Rightarrow> False
     | Inr pc \<Rightarrow> True)"

definition same_output :: "gen_state \<Rightarrow> gen_state \<Rightarrow> bool" where
  "same_output s s' \<longleftrightarrow>
     funcs s = funcs s' \<and> test_count s = test_count s' \<and>
     vars_without_values s = vars_without_values s'"

section \<open>What the security case builder accepts\<close>

text \<open>
  The \<open>apiKey\<close> configurations that pass: the location is a string that lower-cases to
  \<open>header\<close> and the name is truthy.
\<close>

definition header_api_key :: "pdict \<Rightarrow> bool" where
  "header_api_key cfg =
     (case dget cfg ''in'' of
        PStr l \<Rightarrow> lower l = ''header'' \<and> truthy (dget cfg ''name'')
      | _ \<Rightarrow> False)"

section \<open>Example inputs\<close>

text \<open>A parameter configuration as the parser stores it.\<close>

definition example_param :: "string \<Rightarrow> string \<Rightarrow> pyval \<Rightarrow> pyval \<Rightarrow> pdict" where
  "example_param n l r d =
     [(''name'', PStr n), (''in'', PStr l), (''required'', r), (''default'', d)]"

definition example_bucket :: bucket where
  "example_bucket =
     \<lparr>required = [example_param ''id'' ''query'' (PBool True) PNone],
      not_required = [example_param ''a'' ''query'' (PBool False) PNone,
                      example_param ''b'' ''query'' (PBool False) (PInt 5)]\<rparr>"

text \<open>Templates and a \<open>repr\<close> small enough to read the generated text.\<close>

definition example_key :: "pyval \<Rightarrow> string" where
  "example_key k = (case k of PStr s \<Rightarrow> s | _ \<Rightarrow> ''?'')"

definition example_repr :: "pyval \<Rightarrow> string" where
  "example_repr v =
     (case v of
        PNone \<Rightarrow> ''None''
      | PBool b \<Rightarrow> (if b then ''True'' else ''False'')
      | PInt i \<Rightarrow> (if i < 0 then ''-'' @ str_nat (nat (- i)) else str_nat (nat i))
      | PStr s \<Rightarrow> [CHR 0x27] @ s @ [CHR 0x27]
      | PList xs \<Rightarrow> ''[..]''
      | PDict d \<Rightarrow> ''{..}'')"

definition example_env :: env where
  "example_env =
     \<lparr>FUNC_TEMPLATE = (\<lambda>fn m p pp qp hp cp.
        fn @ '' '' @ m @ '' '' @ p @ pp @ '' '' @ qp @ '' '' @ hp @ '' '' @ cp @ '';''),
      PATH_PARAM_PAIR_TEMPLATE = (\<lambda>k v. example_key k @ ''='' @ v),
      DICT_PARAM_PAIR_TEMPLATE = (\<lambda>k v. example_key k @ '': '' @ v),
      AUTH_BASIC_TEMPLATE = ''basic;'',
      AUTH_KEY_HEADER_TEMPLATE = (\<lambda>n. ''key '' @ example_key n @ '';''),
      FILE_TEMPLATE = (\<lambda>vs ts sc h.
        vs @ ''|'' @ ts @ ''|'' @ (case sc of None \<Rightarrow> ''None'' | Some s \<Rightarrow> s) @ ''|'' @ h),
      repr = example_repr\<rparr>"

text \<open>
  Three parameters of one operation: a required path parameter without a default, an
  optional query parameter without a default and an optional query parameter with one.
\<close>

definition example_params :: "(string \<times> pdict) list" where
  "example_params =
     [(''id'', example_param ''id'' ''path'' (PBool True) PNone),
      (''tag'', example_param ''tag'' ''query'' (PBool False) PNone),
      (''limit'', example_param ''limit'' ''query'' (PBool False) (PInt 10))]"

definition example_extracted :: "bucket by_location" where
  "example_extracted =
     \<lparr>path_params = empty_bucket, query_params = empty_bucket,
      header_params = empty_bucket, cookie_params = empty_bucket\<rparr>"

text \<open>
  Three operations: one whose only parameter is required and has no default, one whose
  only parameter has an unknown location, and one with an optional query parameter that
  has a default. Two specifications list them under one path, with and without the
  first or the second.
\<close>

definition example_nodefault_md :: method_data where
  "example_nodefault_md =
     \<lparr>params = Some [(''id'', example_param ''id'' ''path'' (PBool True) PNone)]\<rparr>"

definition example_badloc_md :: method_data where
  "example_badloc_md =
     \<lparr>params = Some [(''b'', example_param ''b'' ''body'' (PBool True) (PInt 1))]\<rparr>"

definition example_ok_md :: method_data where
  "example_ok_md =
     \<lparr>params = Some [(''limit'', example_param ''limit'' ''query'' (PBool False) (PInt 10))]\<rparr>"

definition example_sd :: swagger_data where
  "example_sd = \<lparr>paths = [], security = None, host = ''h''\<rparr>"

text \<open>
  Combination lists of an operation with one optional query parameter without a default
  and one optional header parameter with a default.
\<close>

definition example_pc :: "pdict list list by_location" where
  "example_pc =
     \<lparr>path_params = [[]],
      query_params = [[], [example_param ''a'' ''query'' (PBool False) PNone]],
      header_params = [[], [example_param ''b'' ''header'' (PBool False) (PInt 7)]],
      cookie_params = [[]]\<rparr>"

definition example_state :: gen_state where
  "example_state = \<lparr>funcs = [], test_count = 0, vars_without_values = [], warnings = []\<rparr>"

text \<open>
  A specification with one operation whose optional query parameter has no default, and
  three security declarations: an \<open>apiKey\<close> carried in the query string, a scheme of
  another type, and an \<open>apiKey\<close> in a header.
\<close>

definition example_placeholder_sd :: swagger_data where
  "example_placeholder_sd =
     \<lparr>paths = [(''/a'', [(''get'',
         \<lparr>params = Some [(''a'', example_param ''a'' ''query'' (PBool False) PNone)]\<rparr>)])],
      security = None, host = ''h''\<rparr>"

definition example_query_key :: pdict where
  "example_query_key = [(''type'', PStr ''apiKey''), (''in'', PStr ''query''), (''name'', PStr ''k'')]"

definition example_oauth :: pdict where
  "example_oauth = [(''type'', PStr ''oauth2'')]"

definition example_header_key :: pdict where
  "example_header_key =
     [(''type'', PStr ''apiKey''), (''in'', PStr ''Header''), (''name'', PStr ''X-Key'')]"

definition example_bare_key :: pdict where
  "example_bare_key = [(''type'', PStr ''apiKey'')]"


section \<open>Properties of the combination enumerator\<close>

lemma filter_empty_subseqs: "filter (\<lambda>ys. length ys = 0) (subseqs xs) = [[]]"
  by (induction xs) (simp_all add: Let_def filter_map comp_def)

lemma combinations_filter_subseqs:
  "combinations xs k = filter (\<lambda>ys. length ys = k) (subseqs xs)"
proof (induction xs k rule: combinations.induct)
  case (1 xs)
  then show ?case using filter_empty_subseqs[of xs] by simp
next
  case (2 k)
  then show ?case by simp
next
  case (3 x xs k)
  then show ?case by (simp add: Let_def filter_map comp_def)
qed

lemma length_combinations: "length (combinations xs k) = length xs choose k"
  by (induction xs k rule: combinations.induct) simp_all

lemma combinations_map: "combinations (map f xs) k = map (map f) (combinations xs k)"
  by (induction xs k rule: combinations.induct) simp_all

lemma combinations_positions:
  "combinations xs k = map (map ((!) xs)) (combinations [0 ..< length xs] k)"
proof -
  have "combinations xs k = combinations (map ((!) xs) [0 ..< length xs]) k"
    by (simp add: map_nth)
  then show ?thesis by (simp only: combinations_map)
qed

lemma combinations_length_elem: "ys \<in> set (combinations xs k) \<Longrightarrow> length ys = k"
  by (simp add: combinations_filter_subseqs)

lemma combinations_subset: "ys \<in> set (combinations xs k) \<Longrightarrow> set ys \<subseteq> set xs"
  by (induction xs k arbitrary: ys rule: combinations.induct) fastforce+

lemma combinations_lex_sorted:
  fixes xs :: "nat list"
  assumes "sorted_wrt (<) xs"
  shows "sorted_wrt (\<lambda>a b. (a, b) \<in> lexord {(i, j). i < j}) (combinations xs k)"
  using assms
proof (induction xs k rule: combinations.induct)
  case (3 x xs k)
  let ?L = "\<lambda>a b. (a, b) \<in> lexord {(i, j). i < (j::nat)}"
  have a: "sorted_wrt ?L (map (Cons x) (combinations xs k))"
    using 3 by (simp add: sorted_wrt_map)
  have b: "sorted_wrt ?L (combinations xs (Suc k))"
    using 3 by simp
  have c: "?L (x # ys) zs" if "zs \<in> set (combinations xs (Suc k))" for ys zs
  proof -
    have "length zs = Suc k"
      using combinations_length_elem that by blast
    then obtain z zs' where zs: "zs = z # zs'"
      by (cases zs) auto
    have "z \<in> set xs"
      using combinations_subset[OF that] zs by auto
    then have "x < z"
      using 3(3) by auto
    then show ?thesis
      using zs by simp
  qed
  show ?case
    using a b c by (auto simp: sorted_wrt_append)
qed simp_all

lemma subseqs_sorted_set:
  fixes xs :: "nat list"
  shows "sorted_wrt (<) xs \<Longrightarrow>
    set (subseqs xs) = {ys. sorted_wrt (<) ys \<and> set ys \<subseteq> set xs}"
proof (induction xs)
  case Nil
  then show ?case by auto
next
  case (Cons x xs)
  have lt: "\<forall>y\<in>set xs. x < y"
    and IH: "set (subseqs xs) = {ys. sorted_wrt (<) ys \<and> set ys \<subseteq> set xs}"
    using Cons by auto
  have "ys \<in> set (subseqs (x # xs)) \<longleftrightarrow> sorted_wrt (<) ys \<and> set ys \<subseteq> set (x # xs)" for ys
  proof (cases ys)
    case Nil
    then show ?thesis using IH by (auto simp: Let_def)
  next
    case (Cons y zs)
    show ?thesis
    proof (cases "y = x")
      case True
      have "sorted_wrt (<) (x # zs) \<Longrightarrow> set zs \<subseteq> insert x (set xs) \<Longrightarrow> set zs \<subseteq> set xs"
        by fastforce
      then show ?thesis using True Cons IH lt by (auto simp: Let_def)
    next
      case False
      then show ?thesis using Cons IH lt by (fastforce simp: Let_def)
    qed
  qed
  then show ?case by blast
qed

lemma sum_list_choose: "sum_list (map (\<lambda>k. n choose k) [0 ..< n + 1]) = 2 ^ n"
proof -
  have "sum_list (map (\<lambda>k. n choose k) [0 ..< n + 1]) = (\<Sum>k\<le>n. n choose k)"
    by (simp only: interv_sum_list_conv_sum_set_nat set_upt)
       (simp add: atLeast0AtMost atLeastLessThanSuc_atLeastAtMost
          lessThan_Suc_atMost[symmetric] atLeast0LessThan del: upt_Suc)
  then show ?thesis by (simp only: choose_row_sum)
qed

lemma length_chosen_positions: "length (chosen_positions n) = 2 ^ n"
proof -
  have "length (chosen_positions n) = sum_list (map (\<lambda>k. n choose k) [0 ..< n + 1])"
    unfolding chosen_positions_def
    by (simp only: length_concat map_map comp_def length_combinations length_upt diff_zero)
  then show ?thesis by (simp only: sum_list_choose)
qed

lemma create_params_combinations_positions:
  "create_params_combinations b =
     map (\<lambda>ps. required b @ map ((!) (not_required b)) ps)
       (chosen_positions (length (not_required b)))"
proof -
  have "map (\<lambda>c. required b @ c) (combinations (not_required b) k) =
        map (\<lambda>ps. required b @ map ((!) (not_required b)) ps)
          (combinations [0 ..< length (not_required b)] k)" for k
    by (subst combinations_positions) (simp add: comp_def)
  then show ?thesis
    unfolding create_params_combinations_def chosen_positions_def Let_def
    by (simp only: map_concat map_map comp_def)
qed

lemma sorted_wrt_concat_upt:
  assumes "\<And>k. k < m \<Longrightarrow> sorted_wrt P (f k)"
    and "\<And>i j a b. i < j \<Longrightarrow> j < m \<Longrightarrow> a \<in> set (f i) \<Longrightarrow> b \<in> set (f j) \<Longrightarrow> P a b"
  shows "sorted_wrt P (concat (map f [0 ..< m]))"
  using assms
proof (induction m)
  case 0
  then show ?case by simp
next
  case (Suc m)
  have "sorted_wrt P (concat (map f [0 ..< m]))"
    using Suc by simp
  moreover have "sorted_wrt P (f m)"
    using Suc.prems(1) by simp
  moreover have "P a b" if ain: "a \<in> set (concat (map f [0 ..< m]))" and bin: "b \<in> set (f m)"
    for a b
  proof -
    obtain i where "i < m" "a \<in> set (f i)"
      using ain by auto
    then show ?thesis
      using Suc.prems(2)[of i m a b] bin by simp
  qed
  ultimately show ?case
    by (simp add: sorted_wrt_append)
qed

lemma sorted_chosen_positions: "sorted_wrt size_then_lex (chosen_positions n)"
  unfolding chosen_positions_def
proof (rule sorted_wrt_concat_upt)
  fix k
  have "sorted_wrt (\<lambda>a b. (a, b) \<in> lexord {(i, j). i < j}) (combinations [0 ..< n] k)"
    by (rule combinations_lex_sorted) (simp add: sorted_wrt_upt)
  then show "sorted_wrt size_then_lex (combinations [0 ..< n] k)"
    by (rule sorted_wrt_mono_rel[rotated])
       (auto simp: size_then_lex_def dest: combinations_length_elem)
next
  fix i j :: nat and a b :: "nat list"
  assume "i < j" "a \<in> set (combinations [0 ..< n] i)" "b \<in> set (combinations [0 ..< n] j)"
  then show "size_then_lex a b"
    by (auto simp: size_then_lex_def dest: combinations_length_elem)
qed

lemma size_then_lex_irrefl: "\<not> size_then_lex a a"
  by (simp add: size_then_lex_def lexord_irreflexive)

lemma sorted_wrt_neq_distinct: "sorted_wrt (\<lambda>a b. a \<noteq> b) xs \<Longrightarrow> distinct xs"
  by (induction xs) auto

lemma distinct_chosen_positions: "distinct (chosen_positions n)"
proof -
  have "sorted_wrt (\<lambda>a b. a \<noteq> b) (chosen_positions n)"
    by (rule sorted_wrt_mono_rel[OF _ sorted_chosen_positions])
       (auto simp: size_then_lex_irrefl)
  then show ?thesis
    by (rule sorted_wrt_neq_distinct)
qed

lemma set_chosen_positions:
  "set (chosen_positions n) = {ps. sorted_wrt (<) ps \<and> set ps \<subseteq> {..<n}}"
proof -
  have len: "length ps \<le> n" if "sorted_wrt (<) ps" "set ps \<subseteq> {..<n}" for ps :: "nat list"
  proof -
    have "distinct ps"
      using that(1) strict_sorted_iff by blast
    then have "length ps = card (set ps)"
      by (simp add: distinct_card)
    also have "\<dots> \<le> card {..<n}"
      by (rule card_mono) (use that(2) in auto)
    finally show ?thesis by simp
  qed
  have "set (chosen_positions n) = {ps \<in> set (subseqs [0 ..< n]). length ps < n + 1}"
    unfolding chosen_positions_def by (auto simp: combinations_filter_subseqs)
  also have "\<dots> = {ps. sorted_wrt (<) ps \<and> set ps \<subseteq> {..<n}}"
    using len by (auto simp: subseqs_sorted_set sorted_wrt_upt atLeast0LessThan less_Suc_eq_le)
  finally show ?thesis .
qed

text \<open>
  C3. For a bucket with required list \<open>R\<close> and optional list \<open>O\<close> of length \<open>n\<close>, the
  enumerator returns \<open>2 ^ n\<close> combinations. They are \<open>R\<close> followed by the elements of \<open>O\<close>
  at the chosen positions, for the position lists \<open>chosen_positions n\<close>; these are exactly
  the strictly increasing lists of positions below \<open>n\<close> (one per subset of the positions,
  the empty one included, in the order of \<open>O\<close>), each listed once, ordered by size and
  within a size lexicographically. So every combination starts with, and contains, \<open>R\<close>.
\<close>

theorem create_params_combinations_enumerates_subsets:
  "length (create_params_combinations b) = 2 ^ length (not_required b)
   \<and> create_params_combinations b =
       map (\<lambda>ps. required b @ map ((!) (not_required b)) ps)
         (chosen_positions (length (not_required b)))
   \<and> set (chosen_positions (length (not_required b))) =
       {ps. sorted_wrt (<) ps \<and> set ps \<subseteq> {..<length (not_required b)}}
   \<and> distinct (chosen_positions (length (not_required b)))
   \<and> sorted_wrt size_then_lex (chosen_positions (length (not_required b)))
   \<and> (\<forall>c \<in> set (create_params_combinations b).
         take (length (required b)) c = required b \<and> set (required b) \<subseteq> set c)"
proof -
  have "length (create_params_combinations b) = 2 ^ length (not_required b)"
    by (simp only: create_params_combinations_positions length_map length_chosen_positions)
  moreover have "\<forall>c \<in> set (create_params_combinations b).
      take (length (required b)) c = required b \<and> set (required b) \<subseteq> set c"
    by (auto simp: create_params_combinations_positions)
  ultimately show ?thesis
    using create_params_combinations_positions[of b] set_chosen_positions
      distinct_chosen_positions sorted_chosen_positions
    by blast
qed

theorem create_params_combinations_enumerates_subsets_witness:
  "create_params_combinations example_bucket =
     [[example_param ''id'' ''query'' (PBool True) PNone],
      [example_param ''id'' ''query'' (PBool True) PNone,
       example_param ''a'' ''query'' (PBool False) PNone],
      [example_param ''id'' ''query'' (PBool True) PNone,
       example_param ''b'' ''query'' (PBool False) (PInt 5)],
      [example_param ''id'' ''query'' (PBool True) PNone,
       example_param ''a'' ''query'' (PBool False) PNone,
       example_param ''b'' ''query'' (PBool False) (PInt 5)]]
   \<and> length (create_params_combinations example_bucket) = 2 ^ 2
   \<and> list_all (\<lambda>c. take 1 c = [example_param ''id'' ''query'' (PBool True) PNone])
         (create_params_combinations example_bucket)"
proof -
  have e: "create_params_combinations example_bucket =
     [[example_param ''id'' ''query'' (PBool True) PNone],
      [example_param ''id'' ''query'' (PBool True) PNone,
       example_param ''a'' ''query'' (PBool False) PNone],
      [example_param ''id'' ''query'' (PBool True) PNone,
       example_param ''b'' ''query'' (PBool False) (PInt 5)],
      [example_param ''id'' ''query'' (PBool True) PNone,
       example_param ''a'' ''query'' (PBool False) PNone,
       example_param ''b'' ''query'' (PBool False) (PInt 5)]]"
    by (simp add: create_params_combinations_def example_bucket_def)
  have r: "required example_bucket = [example_param ''id'' ''query'' (PBool True) PNone]"
    and n: "length (not_required example_bucket) = 2"
    by (simp_all add: example_bucket_def)
  note t = create_params_combinations_enumerates_subsets[of example_bucket]
  have "length (create_params_combinations example_bucket) = 2 ^ 2"
    using conjunct1[OF t] by (simp only: n)
  moreover have "\<forall>c \<in> set (create_params_combinations example_bucket).
      take 1 c = [example_param ''id'' ''query'' (PBool True) PNone]"
    using t by (simp only: r) simp
  ultimately show ?thesis
    unfolding list_all_iff using e by blast
qed

section \<open>Properties of value resolution and the case assembler\<close>

lemma register_Nil: "register [] vars = vars"
  by (simp add: register_def)

lemma register_append: "register (ws @ ws') vars = register ws' (register ws vars)"
  by (simp add: register_def)

lemma format_param_step:
  "format_param E tc ty p (acc, vars) =
     (acc @ [pair_text E ty tc p],
      if truthy (dget p ''default'') then vars else AList.update (token E p tc) p vars)"
  by (simp add: format_param_def pair_text_def value_text_def token_def Let_def)

lemma fold_format_param:
  "fold (format_param E tc ty) rp (acc, vars) =
     (acc @ map (pair_text E ty tc) rp, register (placeholders E rp tc) vars)"
proof (induction rp arbitrary: acc vars)
  case Nil
  then show ?case by (simp add: placeholders_def register_def)
next
  case (Cons p rp)
  show ?case
    by (simp only: fold_simps format_param_step Cons.IH)
       (simp add: placeholders_def register_def)
qed

lemma format_params_eq:
  "format_params E rp tc ty vars = (format_text E rp tc ty, register (placeholders E rp tc) vars)"
  by (simp add: format_params_def fold_format_param format_text_def Let_def)

lemma emit_case_eq:
  "emit_case E tc m path p q h c = cases_effect E tc m path [(p, q, h, c)]"
  by (rule ext)
     (simp add: emit_case_def cases_effect_def format_params_eq render_case_def
        tuple_placeholders_def func_name_def register_append split: prod.splits)

lemma render_cases_append:
  "render_cases E tc m path n (ts @ ts') =
     render_cases E tc m path n ts @ render_cases E tc m path (n + length ts) ts'"
  by (induction ts arbitrary: n) simp_all

lemma cases_effect_Nil: "cases_effect E tc m path [] s = s"
  by (cases s) (simp add: cases_effect_def register_Nil)

lemma cases_effect_append:
  "cases_effect E tc m path (ts @ ts') s =
     cases_effect E tc m path ts' (cases_effect E tc m path ts s)"
  by (cases s) (simp add: cases_effect_def render_cases_append register_append add.assoc)

lemma fold_cases_effect_apply:
  "fold (\<lambda>x. cases_effect E tc m path (f x)) xs s =
     cases_effect E tc m path (concat (map f xs)) s"
proof (induction xs arbitrary: s)
  case Nil
  then show ?case by (simp add: cases_effect_Nil)
next
  case (Cons x xs)
  then show ?case by (simp add: cases_effect_append)
qed

lemma fold_cases_effect:
  "fold (\<lambda>x. cases_effect E tc m path (f x)) xs =
     cases_effect E tc m path (concat (map f xs))"
  by (rule ext) (rule fold_cases_effect_apply)

lemma assemble_cases_eq:
  "assemble_cases E tc m path pc = cases_effect E tc m path (cross_product pc)"
proof -
  have inner: "fold (\<lambda>c. emit_case E tc m path p q h c) cs =
      cases_effect E tc m path (map (\<lambda>c. (p, q, h, c)) cs)" for p q h cs
    using fold_cases_effect[of E tc m path "\<lambda>c. [(p, q, h, c)]" cs]
    by (simp add: emit_case_eq)
  show ?thesis
    unfolding assemble_cases_def cross_product_def
    by (simp only: inner fold_cases_effect)
qed

lemma length_render_cases: "length (render_cases E tc m path n ts) = length ts"
  by (induction ts arbitrary: n) simp_all

lemma nth_render_cases:
  "i < length ts \<Longrightarrow> render_cases E tc m path n ts ! i = render_case E tc m path (n + i) (ts ! i)"
proof (induction ts arbitrary: n i)
  case Nil
  then show ?case by simp
next
  case (Cons t ts)
  then show ?case by (cases i) simp_all
qed

lemma length_cross_product:
  "length (cross_product pc) =
     length (path_params pc) * length (query_params pc) *
     length (header_params pc) * length (cookie_params pc)"
  by (simp add: cross_product_def length_concat comp_def sum_list_triv)

lemma process_operation_eq:
  "process_operation E lvl path (m, md) st =
     (case generate_params lvl (case params md of None \<Rightarrow> [] | Some ps \<Rightarrow> ps) of
        Inl e \<Rightarrow> st\<lparr>warnings := warnings st @ [ValueError e]\<rparr>
      | Inr pc \<Rightarrow>
          st\<lparr>funcs := funcs st @ render_cases E (test_count st) m path 0 (cross_product pc),
             test_count := test_count st + 1,
             vars_without_values :=
               register (concat (map (tuple_placeholders E (test_count st)) (cross_product pc)))
                 (vars_without_values st)\<rparr>)"
  by (simp add: process_operation_def assemble_cases_eq cases_effect_def split: sum.splits)

section \<open>Properties of the parameter extractor\<close>

lemma extract_param_rejected:
  "\<not> accepted lvl cfg \<Longrightarrow> extract_param lvl (p, cfg) ex = Inl (param_error (p, cfg))"
  by (auto simp: extract_param_def accepted_def param_error_def has_truthy_default_def
      split: option.splits)

lemma extract_param_accepted:
  "accepted lvl cfg \<Longrightarrow> target_of (dget cfg ''in'') = Some t \<Longrightarrow>
   extract_param lvl (p, cfg) ex =
     Inr (if kept lvl cfg then target_append t (dget cfg ''required'') cfg ex else ex)"
  by (auto simp: extract_param_def accepted_def kept_def has_truthy_default_def is_required_def)

lemma extract_loop_rejected:
  "(p, cfg) \<in> set ps \<Longrightarrow> \<not> accepted lvl cfg \<Longrightarrow>
   \<exists>q \<in> set ps. \<not> accepted lvl (snd q) \<and> extract_loop lvl ps ex = Inl (param_error q)"
proof (induction ps arbitrary: ex)
  case Nil
  then show ?case by simp
next
  case (Cons q ps)
  obtain n c where q: "q = (n, c)"
    by (cases q)
  show ?case
  proof (cases "accepted lvl c")
    case False
    then show ?thesis
      using q by (simp add: extract_param_rejected)
  next
    case True
    then obtain t where t: "target_of (dget c ''in'') = Some t"
      by (auto simp: accepted_def)
    have "(p, cfg) \<in> set ps"
      using Cons.prems True q by auto
    then show ?thesis
      using Cons.IH Cons.prems(2) q by (simp add: extract_param_accepted[OF True t])
  qed
qed

lemma bucket_eqI: "required a = required b \<Longrightarrow> not_required a = not_required b \<Longrightarrow> a = (b::bucket)"
  by simp

lemma extract_loop_accepted:
  "\<forall>q \<in> set ps. accepted lvl (snd q) \<Longrightarrow>
   extract_loop lvl ps ex =
     Inr \<lparr>path_params =
            \<lparr>required = required (path_params ex) @ select PathParams True lvl ps,
             not_required = not_required (path_params ex) @ select PathParams False lvl ps\<rparr>,
          query_params =
            \<lparr>required = required (query_params ex) @ select QueryParams True lvl ps,
             not_required = not_required (query_params ex) @ select QueryParams False lvl ps\<rparr>,
          header_params =
            \<lparr>required = required (header_params ex) @ select HeaderParams True lvl ps,
             not_required = not_required (header_params ex) @ select HeaderParams False lvl ps\<rparr>,
          cookie_params =
            \<lparr>required = required (cookie_params ex) @ select CookieParams True lvl ps,
             not_required = not_required (cookie_params ex) @ select CookieParams False lvl ps\<rparr>\<rparr>"
proof (induction ps arbitrary: ex)
  case Nil
  then show ?case by (simp add: select_def)
next
  case (Cons q ps)
  obtain n c where q: "q = (n, c)"
    by (cases q)
  have acc: "accepted lvl c" and rest: "\<forall>q \<in> set ps. accepted lvl (snd q)"
    using Cons.prems q by auto
  obtain t where t: "target_of (dget c ''in'') = Some t"
    using acc by (auto simp: accepted_def)
  show ?case
    unfolding q extract_loop.simps extract_param_accepted[OF acc t] sum.case
    by (subst Cons.IH[OF rest])
       (cases t; simp add: select_def t bucket_append_def is_required_def)
qed

lemma extract_params_accepted:
  "\<forall>q \<in> set ps. accepted lvl (snd q) \<Longrightarrow> extract_params lvl ps = Inr (selected_buckets lvl ps)"
  by (simp add: extract_params_def extract_loop_accepted empty_bucket_def selected_buckets_def
      selected_bucket_def)

lemma extract_params_rejected:
  "(p, cfg) \<in> set ps \<Longrightarrow> \<not> accepted lvl cfg \<Longrightarrow>
   \<exists>q \<in> set ps. \<not> accepted lvl (snd q) \<and> extract_params lvl ps = Inl (param_error q)"
  unfolding extract_params_def by (rule extract_loop_rejected)

lemma generate_params_rejected:
  "(p, cfg) \<in> set ps \<Longrightarrow> \<not> accepted lvl cfg \<Longrightarrow>
   \<exists>q \<in> set ps. \<not> accepted lvl (snd q) \<and> generate_params lvl ps = Inl (param_error q)"
  using extract_params_rejected[of p cfg ps lvl] by (auto simp: generate_params_def)

lemma extract_loop_append:
  "extract_loop lvl (xs @ ys) ex =
     (case extract_loop lvl xs ex of Inl e \<Rightarrow> Inl e | Inr ex' \<Rightarrow> extract_loop lvl ys ex')"
  by (induction xs arbitrary: ex) (simp_all split: sum.splits)

lemma generate_params_first_rejected:
  assumes "\<forall>q \<in> set pre. accepted lvl (snd q)" and "\<not> accepted lvl cfg"
  shows "generate_params lvl (pre @ (p, cfg) # post) = Inl (param_error (p, cfg))"
  by (simp add: generate_params_def extract_params_def extract_loop_append
      extract_loop_accepted[OF assms(1)] extract_param_rejected[OF assms(2)])

section \<open>Properties of the orchestrator\<close>

lemma run_operations_flat:
  "run_operations E lvl pd st = fold (op_step E lvl) (operations pd) st"
proof (induction pd arbitrary: st)
  case Nil
  then show ?case by (simp add: run_operations_def operations_def)
next
  case (Cons x pd)
  obtain path ms where x: "x = (path, ms)"
    by (cases x)
  have "fold (op_step E lvl) (map (Pair path) ms) s = fold (process_operation E lvl path) ms s"
    for s
    by (simp add: fold_map comp_def op_step_def)
  then show ?case
    using Cons.IH by (simp add: run_operations_def operations_def x)
qed

lemma operations_split:
  "operations (pre @ (path, ms1 @ op # ms2) # post) =
     (operations pre @ map (Pair path) ms1) @ (path, op) # (map (Pair path) ms2 @ operations post)"
  by (simp add: operations_def)

lemma operations_removed:
  "operations (pre @ (path, ms1 @ ms2) # post) =
     (operations pre @ map (Pair path) ms1) @ (map (Pair path) ms2 @ operations post)"
  by (simp add: operations_def)

lemma process_operation_failed:
  "generate_params lvl (operation_params md) = Inl e \<Longrightarrow>
   process_operation E lvl path (m, md) st = st\<lparr>warnings := warnings st @ [ValueError e]\<rparr>"
  by (simp add: process_operation_eq operation_params_def)

lemma process_operation_succeeded:
  "generate_params lvl (operation_params md) = Inr pc \<Longrightarrow>
   process_operation E lvl path (m, md) st =
     st\<lparr>funcs := funcs st @ render_cases E (test_count st) m path 0 (cross_product pc),
        test_count := test_count st + 1,
        vars_without_values :=
          register (concat (map (tuple_placeholders E (test_count st)) (cross_product pc)))
            (vars_without_values st)\<rparr>"
  by (simp add: process_operation_eq operation_params_def)

lemma same_output_refl: "same_output s s"
  by (simp add: same_output_def)

lemma same_output_step:
  "same_output s s' \<Longrightarrow> same_output (op_step E lvl x s) (op_step E lvl x s')"
proof -
  assume h: "same_output s s'"
  obtain path m md where x: "x = (path, m, md)"
    by (cases x)
  show ?thesis
  proof (cases "generate_params lvl (operation_params md)")
    case (Inl e)
    then show ?thesis
      using h by (simp add: x op_step_def process_operation_failed same_output_def)
  next
    case (Inr pc)
    then show ?thesis
      using h by (simp add: x op_step_def process_operation_succeeded same_output_def)
  qed
qed

lemma same_output_fold:
  "same_output s s' \<Longrightarrow> same_output (fold (op_step E lvl) xs s) (fold (op_step E lvl) xs s')"
  by (induction xs arbitrary: s s') (simp_all add: same_output_step)

lemma warnings_step: "set (warnings s) \<subseteq> set (warnings (op_step E lvl x s))"
proof -
  obtain path m md where x: "x = (path, m, md)"
    by (cases x)
  show ?thesis
    by (cases "generate_params lvl (operation_params md)")
       (auto simp: x op_step_def process_operation_failed process_operation_succeeded)
qed

lemma warnings_fold: "set (warnings s) \<subseteq> set (warnings (fold (op_step E lvl) xs s))"
proof (induction xs arbitrary: s)
  case Nil
  then show ?case by simp
next
  case (Cons x xs)
  show ?case
    using warnings_step[of s E lvl x] Cons.IH[of "op_step E lvl x s"] by auto
qed

lemma failed_operation_skipped:
  assumes "generate_params lvl (operation_params md) = Inl e"
  shows "same_output (fold (op_step E lvl) (xs @ (path, m, md) # ys) st)
           (fold (op_step E lvl) (xs @ ys) st)"
    and "ValueError e \<in> set (warnings (fold (op_step E lvl) (xs @ (path, m, md) # ys) st))"
proof -
  let ?s = "fold (op_step E lvl) xs st"
  have step: "op_step E lvl (path, m, md) ?s = ?s\<lparr>warnings := warnings ?s @ [ValueError e]\<rparr>"
    by (simp add: op_step_def process_operation_failed[OF assms])
  have "same_output (op_step E lvl (path, m, md) ?s) ?s"
    by (simp add: step same_output_def)
  then show "same_output (fold (op_step E lvl) (xs @ (path, m, md) # ys) st)
      (fold (op_step E lvl) (xs @ ys) st)"
    by (simp add: same_output_fold)
  have "ValueError e \<in> set (warnings (op_step E lvl (path, m, md) ?s))"
    by (simp add: step)
  then show "ValueError e \<in> set (warnings (fold (op_step E lvl) (xs @ (path, m, md) # ys) st))"
    using warnings_fold[of "op_step E lvl (path, m, md) ?s" E lvl ys] by auto
qed

lemma generate_locustfile_same_output:
  assumes "same_output (generate_test_cases E lvl vars (paths sd))
             (generate_test_cases E lvl vars (paths sd'))"
    and "security sd = security sd'" and "host sd = host sd'"
  shows "fst (generate_locustfile E lvl vars sd) = fst (generate_locustfile E lvl vars sd')"
    and "fst (snd (generate_locustfile E lvl vars sd)) =
         fst (snd (generate_locustfile E lvl vars sd'))"
  using assms
  by (auto simp: generate_locustfile_def Let_def same_output_def split: option.splits sum.splits)

lemma failed_operation_excluded:
  assumes "generate_params lvl (operation_params md) = Inl e"
  shows "fst (generate_locustfile E lvl vars
              (sd\<lparr>paths := pre @ (path, ms1 @ (m, md) # ms2) # post\<rparr>)) =
         fst (generate_locustfile E lvl vars (sd\<lparr>paths := pre @ (path, ms1 @ ms2) # post\<rparr>))"
    and "fst (snd (generate_locustfile E lvl vars
              (sd\<lparr>paths := pre @ (path, ms1 @ (m, md) # ms2) # post\<rparr>))) =
         fst (snd (generate_locustfile E lvl vars
              (sd\<lparr>paths := pre @ (path, ms1 @ ms2) # post\<rparr>)))"
    and "ValueError e \<in> set (snd (snd (generate_locustfile E lvl vars
              (sd\<lparr>paths := pre @ (path, ms1 @ (m, md) # ms2) # post\<rparr>))))"
proof -
  let ?with = "sd\<lparr>paths := pre @ (path, ms1 @ (m, md) # ms2) # post\<rparr>"
  let ?without = "sd\<lparr>paths := pre @ (path, ms1 @ ms2) # post\<rparr>"
  have same: "same_output (generate_test_cases E lvl vars (paths ?with))
      (generate_test_cases E lvl vars (paths ?without))"
    unfolding generate_test_cases_def run_operations_flat
    using failed_operation_skipped(1)[OF assms, of E "operations pre @ map (Pair path) ms1"
        path m "map (Pair path) ms2 @ operations post"]
    by (simp add: operations_split operations_removed)
  show "fst (generate_locustfile E lvl vars ?with) = fst (generate_locustfile E lvl vars ?without)"
    by (rule generate_locustfile_same_output(1)[OF same]) simp_all
  show "fst (snd (generate_locustfile E lvl vars ?with)) =
      fst (snd (generate_locustfile E lvl vars ?without))"
    by (rule generate_locustfile_same_output(2)[OF same]) simp_all
  have "ValueError e \<in> set (warnings (generate_test_cases E lvl vars (paths ?with)))"
    unfolding generate_test_cases_def run_operations_flat
    using failed_operation_skipped(2)[OF assms, of E "operations pre @ map (Pair path) ms1"
        path m "map (Pair path) ms2 @ operations post"]
    by (simp add: operations_split)
  then show "ValueError e \<in> set (snd (snd (generate_locustfile E lvl vars ?with)))"
    by (auto simp: generate_locustfile_def Let_def split: option.splits sum.splits)
qed

section \<open>The strictness policy\<close>

lemma example_env_fields:
  "FUNC_TEMPLATE example_env fn m p pp qp hp cp =
     fn @ '' '' @ m @ '' '' @ p @ pp @ '' '' @ qp @ '' '' @ hp @ '' '' @ cp @ '';''"
  "PATH_PARAM_PAIR_TEMPLATE example_env k v = example_key k @ ''='' @ v"
  "DICT_PARAM_PAIR_TEMPLATE example_env k v = example_key k @ '': '' @ v"
  "AUTH_BASIC_TEMPLATE example_env = ''basic;''"
  "AUTH_KEY_HEADER_TEMPLATE example_env n = ''key '' @ example_key n @ '';''"
  "FILE_TEMPLATE example_env vs ts sc h =
     vs @ ''|'' @ ts @ ''|'' @ (case sc of None \<Rightarrow> ''None'' | Some s \<Rightarrow> s) @ ''|'' @ h"
  "repr example_env = example_repr"
  by (simp_all add: example_env_def)

lemma extract_param_level_1:
  "target_of (dget cfg ''in'') = Some t \<Longrightarrow>
   extract_param 1 (p, cfg) ex =
     Inr (if has_truthy_default cfg \<or> is_required cfg
          then target_append t (dget cfg ''required'') cfg ex else ex)"
  by (auto simp: extract_param_def has_truthy_default_def is_required_def)

lemma extract_param_level_1_error:
  "extract_param 1 (p, cfg) ex = Inl e \<Longrightarrow> e = NotValidIn p (dget cfg ''in'') cfg"
  by (auto simp: extract_param_def Let_def split: option.splits if_splits)

text \<open>
  C7, as the code has it. At strict level 1 a parameter is kept exactly when its default
  is truthy or it is required. A truthy default is a declared one, but a declared default
  that is \<open>0\<close>, \<open>False\<close> or empty is not truthy: an optional parameter with such a default
  is left out like one without a default. The loop body appends a kept parameter to the
  bucket of its location and leaves the buckets alone otherwise, the only error it can
  raise is the one for an unknown location, and on a parameter map whose locations are
  all known the extractor returns the buckets of the kept parameters, in order.
\<close>

theorem strict_level_1_keeps_truthy_default_or_required:
  "(kept 1 cfg \<longleftrightarrow> has_truthy_default cfg \<or> is_required cfg)
   \<and> (has_truthy_default cfg \<longrightarrow> declares_default cfg)
   \<and> (\<forall>t. target_of (dget cfg ''in'') = Some t \<longrightarrow>
         extract_param 1 (p, cfg) ex =
           Inr (if has_truthy_default cfg \<or> is_required cfg
                then target_append t (dget cfg ''required'') cfg ex else ex))
   \<and> (\<forall>e. extract_param 1 (p, cfg) ex = Inl e \<longrightarrow> e = NotValidIn p (dget cfg ''in'') cfg)
   \<and> ((\<forall>q \<in> set ps. target_of (dget (snd q) ''in'') \<noteq> None) \<longrightarrow>
         extract_params 1 ps = Inr (selected_buckets 1 ps))"
proof -
  have "extract_params 1 ps = Inr (selected_buckets 1 ps)"
    if "\<forall>q \<in> set ps. target_of (dget (snd q) ''in'') \<noteq> None"
  proof (rule extract_params_accepted)
    show "\<forall>q \<in> set ps. accepted 1 (snd q)"
      using that by (simp add: accepted_def)
  qed
  moreover have "has_truthy_default cfg \<longrightarrow> declares_default cfg"
    by (auto simp: has_truthy_default_def declares_default_def)
  ultimately show ?thesis
    using extract_param_level_1[of cfg _ p ex] extract_param_level_1_error[of p cfg ex]
    by (simp add: kept_def)
qed

lemma example_params_eval:
  "selected_buckets 1 example_params =
     \<lparr>path_params =
        \<lparr>required = [example_param ''id'' ''path'' (PBool True) PNone], not_required = []\<rparr>,
      query_params =
        \<lparr>required = [],
         not_required = [example_param ''limit'' ''query'' (PBool False) (PInt 10)]\<rparr>,
      header_params = \<lparr>required = [], not_required = []\<rparr>,
      cookie_params = \<lparr>required = [], not_required = []\<rparr>\<rparr>"
  by (simp add: selected_buckets_def selected_bucket_def select_def example_params_def
      example_param_def dget_def target_of_def kept_def has_truthy_default_def is_required_def)

theorem strict_level_1_keeps_truthy_default_or_required_witness:
  "extract_params 1 example_params =
     Inr \<lparr>path_params =
            \<lparr>required = [example_param ''id'' ''path'' (PBool True) PNone], not_required = []\<rparr>,
          query_params =
            \<lparr>required = [],
             not_required = [example_param ''limit'' ''query'' (PBool False) (PInt 10)]\<rparr>,
          header_params = \<lparr>required = [], not_required = []\<rparr>,
          cookie_params = \<lparr>required = [], not_required = []\<rparr>\<rparr>
   \<and> extract_param 1 (''tag'', example_param ''tag'' ''query'' (PBool False) PNone)
         example_extracted = Inr example_extracted
   \<and> declares_default (example_param ''limit'' ''query'' (PBool False) (PInt 10))"
proof -
  have locs: "\<forall>q \<in> set example_params. target_of (dget (snd q) ''in'') \<noteq> None"
    by (simp add: example_params_def example_param_def dget_def target_of_def)
  have t: "target_of (dget (example_param ''tag'' ''query'' (PBool False) PNone) ''in'') =
      Some QueryParams"
    by (simp add: example_param_def dget_def target_of_def)
  have n: "\<not> (has_truthy_default (example_param ''tag'' ''query'' (PBool False) PNone) \<or>
      is_required (example_param ''tag'' ''query'' (PBool False) PNone))"
    by (simp add: example_param_def dget_def has_truthy_default_def is_required_def)
  have d: "has_truthy_default (example_param ''limit'' ''query'' (PBool False) (PInt 10))"
    by (simp add: example_param_def dget_def has_truthy_default_def)
  note c7 = strict_level_1_keeps_truthy_default_or_required
    [of "example_param ''tag'' ''query'' (PBool False) PNone" "''tag''" example_extracted
       example_params]
  note c7d = strict_level_1_keeps_truthy_default_or_required
    [of "example_param ''limit'' ''query'' (PBool False) (PInt 10)"]
  have "extract_params 1 example_params = Inr (selected_buckets 1 example_params)"
    using c7 locs by blast
  moreover have "extract_param 1 (''tag'', example_param ''tag'' ''query'' (PBool False) PNone)
      example_extracted = Inr example_extracted"
    using c7 t n by simp
  moreover have "declares_default (example_param ''limit'' ''query'' (PBool False) (PInt 10))"
    using c7d d by blast
  ultimately show ?thesis
    by (simp only: example_params_eval)
qed

text \<open>
  The claim as the specification states it fails on an optional parameter that declares
  the default \<open>0\<close>: it has a default value, and strict level 1 leaves it out.
\<close>

theorem strict_level_1_drops_optional_zero_default:
  "declares_default (example_param ''n'' ''query'' (PBool False) (PInt 0))
   \<and> \<not> is_required (example_param ''n'' ''query'' (PBool False) (PInt 0))
   \<and> extract_param 1 (''n'', example_param ''n'' ''query'' (PBool False) (PInt 0))
         example_extracted = Inr example_extracted
   \<and> extract_params 1 [(''n'', example_param ''n'' ''query'' (PBool False) (PInt 0))] =
       Inr \<lparr>path_params = \<lparr>required = [], not_required = []\<rparr>,
            query_params = \<lparr>required = [], not_required = []\<rparr>,
            header_params = \<lparr>required = [], not_required = []\<rparr>,
            cookie_params = \<lparr>required = [], not_required = []\<rparr>\<rparr>"
  by (simp add: declares_default_def is_required_def extract_params_def extract_param_def
      example_param_def dget_def target_of_def empty_bucket_def)



section \<open>Operations whose extraction fails\<close>

lemma example_ok_run:
  "generate_locustfile example_env lvl []
     (example_sd\<lparr>paths := [(''/a'', [(''post'', example_ok_md)])]\<rparr>) =
   (Inr ''|test_0_case_0 post /a {} {} {};test_0_case_1 post /a {limit: 10} {} {};|None|h'',
    [], [])"
  if "lvl = 0 \<or> lvl = 1 \<or> lvl = 2"
  using that
  by (auto simp: generate_locustfile_def generate_test_cases_def run_operations_def
      process_operation_def generate_params_def extract_params_def extract_param_def
      example_sd_def example_ok_md_def example_param_def dget_def target_of_def
      empty_bucket_def bucket_append_def create_params_combinations_def assemble_cases_def
      emit_case_def format_params_def format_param_def example_env_fields example_key_def
      example_repr_def py_str_def str_nat.simps generate_code_from_template_def Let_def)

lemma select_level_2_has_truthy_default: "c \<in> set (select t r 2 ps) \<Longrightarrow> has_truthy_default c"
  by (auto simp: select_def kept_def)

lemma extract_params_Inr_accepted:
  assumes "extract_params lvl ps = Inr ex"
  shows "ex = selected_buckets lvl ps"
proof (cases "\<forall>q \<in> set ps. accepted lvl (snd q)")
  case True
  then show ?thesis
    using assms by (simp add: extract_params_accepted)
next
  case False
  then obtain p cfg where "(p, cfg) \<in> set ps" "\<not> accepted lvl cfg"
    by auto
  then show ?thesis
    using extract_params_rejected[of p cfg ps lvl] assms by auto
qed

text \<open>
  C1. At strict level 2 the extractor returns only parameters that have a default. A
  parameter without one (required or not) makes \<open>generate_params\<close> raise; when every
  location of the map is known, the error is the missing-default one. The orchestrator
  logs the error and leaves the functions, the sequence counter and the placeholder
  table as they were, so the generated script and the placeholder table are those of the
  specification without the operation, and the error is in the log.
\<close>

theorem strict_level_2_missing_default_skips_operation:
  assumes "(p, cfg) \<in> set ps" and "\<not> has_truthy_default cfg" and "params md = Some ps"
  shows "(\<forall>ps' ex. extract_params 2 ps' = Inr ex \<longrightarrow>
            ex = selected_buckets 2 ps' \<and> (\<forall>t r. \<forall>c \<in> set (select t r 2 ps'). has_truthy_default c))
    \<and> (\<exists>q \<in> set ps.
          generate_params 2 ps = Inl (param_error q)
          \<and> ((\<forall>q' \<in> set ps. target_of (dget (snd q') ''in'') \<noteq> None) \<longrightarrow>
                \<not> has_truthy_default (snd q) \<and>
                param_error q = NoDefaultValue (dget (snd q) ''in'') (fst q))
          \<and> process_operation E 2 path (m, md) st =
                st\<lparr>warnings := warnings st @ [ValueError (param_error q)]\<rparr>
          \<and> fst (generate_locustfile E 2 vars
                   (sd\<lparr>paths := pre @ (path, ms1 @ (m, md) # ms2) # post\<rparr>)) =
              fst (generate_locustfile E 2 vars (sd\<lparr>paths := pre @ (path, ms1 @ ms2) # post\<rparr>))
          \<and> fst (snd (generate_locustfile E 2 vars
                   (sd\<lparr>paths := pre @ (path, ms1 @ (m, md) # ms2) # post\<rparr>))) =
              fst (snd (generate_locustfile E 2 vars
                   (sd\<lparr>paths := pre @ (path, ms1 @ ms2) # post\<rparr>)))
          \<and> ValueError (param_error q) \<in> set (snd (snd (generate_locustfile E 2 vars
                   (sd\<lparr>paths := pre @ (path, ms1 @ (m, md) # ms2) # post\<rparr>)))))"
proof -
  have only: "\<forall>ps' ex. extract_params 2 ps' = Inr ex \<longrightarrow>
      ex = selected_buckets 2 ps' \<and> (\<forall>t r. \<forall>c \<in> set (select t r 2 ps'). has_truthy_default c)"
    using extract_params_Inr_accepted select_level_2_has_truthy_default by blast
  have "\<not> accepted 2 cfg"
    using assms(2) by (simp add: accepted_def)
  then obtain q where q: "q \<in> set ps" "\<not> accepted 2 (snd q)"
    "generate_params 2 ps = Inl (param_error q)"
    using generate_params_rejected[OF assms(1)] by blast
  have fails: "generate_params 2 (operation_params md) = Inl (param_error q)"
    using q(3) assms(3) by (simp add: operation_params_def)
  have kind: "\<not> has_truthy_default (snd q) \<and> param_error q = NoDefaultValue (dget (snd q) ''in'') (fst q)"
    if "\<forall>q' \<in> set ps. target_of (dget (snd q') ''in'') \<noteq> None"
    using that q(1,2) by (cases q) (auto simp: accepted_def param_error_def)
  show ?thesis
    using only q(1) q(3) kind process_operation_failed[OF fails, where E = E and path = path and m = m and st = st]
      failed_operation_excluded[OF fails, where E = E and vars = vars and sd = sd and pre = pre
        and path = path and ?ms1.0 = ms1 and m = m and ?ms2.0 = ms2 and post = post]
    by blast
qed

theorem strict_level_2_missing_default_skips_operation_witness:
  "generate_params 2 [(''id'', example_param ''id'' ''path'' (PBool True) PNone)] =
     Inl (NoDefaultValue (PStr ''path'') ''id'')
   \<and> fst (generate_locustfile example_env 2 []
        (example_sd\<lparr>paths :=
           [(''/a'', [(''get'', example_nodefault_md), (''post'', example_ok_md)])]\<rparr>)) =
       Inr ''|test_0_case_0 post /a {} {} {};test_0_case_1 post /a {limit: 10} {} {};|None|h''
   \<and> ValueError (NoDefaultValue (PStr ''path'') ''id'') \<in>
       set (snd (snd (generate_locustfile example_env 2 []
        (example_sd\<lparr>paths :=
           [(''/a'', [(''get'', example_nodefault_md), (''post'', example_ok_md)])]\<rparr>))))"
proof -
  let ?cfg = "example_param ''id'' ''path'' (PBool True) PNone"
  let ?ps = "[(''id'', ?cfg)]"
  have a: "(''id'', ?cfg) \<in> set ?ps"
    by simp
  have b: "\<not> has_truthy_default ?cfg"
    by (simp add: has_truthy_default_def example_param_def dget_def)
  have c: "params example_nodefault_md = Some ?ps"
    by (simp add: example_nodefault_md_def)
  have locs: "\<forall>q' \<in> set ?ps. target_of (dget (snd q') ''in'') \<noteq> None"
    by (simp add: example_param_def dget_def target_of_def)
  have loc: "dget ?cfg ''in'' = PStr ''path''"
    by (simp add: example_param_def dget_def)
  note t = strict_level_2_missing_default_skips_operation
    [OF a b c, where E = example_env and path = "''/a''" and m = "''get''" and vars = "[]"
       and sd = example_sd and pre = "[]" and ?ms1.0 = "[]"
       and ?ms2.0 = "[(''post'', example_ok_md)]" and post = "[]", unfolded append.simps]
  from t obtain q where q: "q \<in> set ?ps"
    and q1: "generate_params 2 ?ps = Inl (param_error q)"
    and q2: "(\<forall>q' \<in> set ?ps. target_of (dget (snd q') ''in'') \<noteq> None) \<longrightarrow>
       \<not> has_truthy_default (snd q) \<and> param_error q = NoDefaultValue (dget (snd q) ''in'') (fst q)"
    and q3: "fst (generate_locustfile example_env 2 []
        (example_sd\<lparr>paths :=
           [(''/a'', [(''get'', example_nodefault_md), (''post'', example_ok_md)])]\<rparr>)) =
       fst (generate_locustfile example_env 2 []
        (example_sd\<lparr>paths := [(''/a'', [(''post'', example_ok_md)])]\<rparr>))"
    and q4: "ValueError (param_error q) \<in> set (snd (snd (generate_locustfile example_env 2 []
        (example_sd\<lparr>paths :=
           [(''/a'', [(''get'', example_nodefault_md), (''post'', example_ok_md)])]\<rparr>))))"
    by blast
  have qe: "q = (''id'', ?cfg)"
    using q by simp
  have pe: "param_error q = NoDefaultValue (PStr ''path'') ''id''"
    using q2 locs by (simp add: qe loc)
  show ?thesis
    using q1 q3 q4 by (simp add: pe example_ok_run)
qed

text \<open>
  C6, as the code has it. A location is unknown exactly when it is none of \<open>path\<close>,
  \<open>query\<close>, \<open>header\<close> and \<open>cookie\<close>. A parameter with an unknown location makes the
  loop body raise the unknown-location error at every strict level. The loop stops at
  the first parameter that raises: when every parameter before it passes (a known
  location and, at strict level 2, a truthy default), \<open>generate_params\<close> raises the
  unknown-location error of that parameter; in general it raises the error of the
  first parameter that does not pass, which is an unknown-location error at every strict
  level but 2 and the missing-default error when the location of that parameter is known. The orchestrator logs the error and leaves the functions, the sequence counter
  and the placeholder table as they were: the script and the placeholder table are those
  of the specification without the operation, and the error is in the log.
\<close>

theorem invalid_location_fails_operation:
  assumes "ps = before @ (p, cfg) # after" and "target_of (dget cfg ''in'') = None"
    and "params md = Some ps"
  shows "(target_of loc = None \<longleftrightarrow>
            loc \<notin> {PStr ''path'', PStr ''query'', PStr ''header'', PStr ''cookie''})
    \<and> extract_param lvl (p, cfg) ex = Inl (NotValidIn p (dget cfg ''in'') cfg)
    \<and> ((\<forall>q \<in> set before. target_of (dget (snd q) ''in'') \<noteq> None \<and>
                           (lvl = 2 \<longrightarrow> has_truthy_default (snd q))) \<longrightarrow>
          generate_params lvl ps = Inl (NotValidIn p (dget cfg ''in'') cfg))
    \<and> (\<forall>bs q as.
          (\<forall>q' \<in> set bs. accepted lvl (snd q')) \<and> \<not> accepted lvl (snd q) \<longrightarrow>
          generate_params lvl (bs @ q # as) = Inl (param_error q))
    \<and> (accepted lvl c \<longleftrightarrow>
          target_of (dget c ''in'') \<noteq> None \<and> (lvl = 2 \<longrightarrow> has_truthy_default c))
    \<and> (target_of (dget c ''in'') \<noteq> None \<longrightarrow>
          param_error (n, c) = NoDefaultValue (dget c ''in'') n)
    \<and> (\<exists>q \<in> set ps.
          generate_params lvl ps = Inl (param_error q)
          \<and> (lvl \<noteq> 2 \<longrightarrow>
                target_of (dget (snd q) ''in'') = None \<and>
                param_error q = NotValidIn (fst q) (dget (snd q) ''in'') (snd q))
          \<and> process_operation E lvl path (m, md) st =
                st\<lparr>warnings := warnings st @ [ValueError (param_error q)]\<rparr>
          \<and> fst (generate_locustfile E lvl vars
                   (sd\<lparr>paths := pre @ (path, ms1 @ (m, md) # ms2) # post\<rparr>)) =
              fst (generate_locustfile E lvl vars
                   (sd\<lparr>paths := pre @ (path, ms1 @ ms2) # post\<rparr>))
          \<and> fst (snd (generate_locustfile E lvl vars
                   (sd\<lparr>paths := pre @ (path, ms1 @ (m, md) # ms2) # post\<rparr>))) =
              fst (snd (generate_locustfile E lvl vars
                   (sd\<lparr>paths := pre @ (path, ms1 @ ms2) # post\<rparr>)))
          \<and> ValueError (param_error q) \<in> set (snd (snd (generate_locustfile E lvl vars
                   (sd\<lparr>paths := pre @ (path, ms1 @ (m, md) # ms2) # post\<rparr>)))))"
proof -
  have known: "target_of loc = None \<longleftrightarrow>
      loc \<notin> {PStr ''path'', PStr ''query'', PStr ''header'', PStr ''cookie''}"
    by (simp add: target_of_def)
  have mem: "(p, cfg) \<in> set ps"
    using assms(1) by simp
  have rej: "\<not> accepted lvl cfg"
    using assms(2) by (simp add: accepted_def)
  have perr: "param_error (p, cfg) = NotValidIn p (dget cfg ''in'') cfg"
    using assms(2) by (simp add: param_error_def)
  have one: "extract_param lvl (p, cfg) ex = Inl (NotValidIn p (dget cfg ''in'') cfg)"
    using extract_param_rejected[OF rej, of p ex] by (simp add: perr)
  have first: "generate_params lvl ps = Inl (NotValidIn p (dget cfg ''in'') cfg)"
    if "\<forall>q \<in> set before. target_of (dget (snd q) ''in'') \<noteq> None \<and>
          (lvl = 2 \<longrightarrow> has_truthy_default (snd q))"
  proof -
    have "\<forall>q \<in> set before. accepted lvl (snd q)"
      using that by (simp add: accepted_def)
    then show ?thesis
      using generate_params_first_rejected[OF _ rej, of before p after]
      by (simp add: assms(1) perr)
  qed
  have gen: "\<forall>bs q as.
      (\<forall>q' \<in> set bs. accepted lvl (snd q')) \<and> \<not> accepted lvl (snd q) \<longrightarrow>
      generate_params lvl (bs @ q # as) = Inl (param_error q)"
  proof (intro allI impI)
    fix bs as :: "(string \<times> pdict) list" and q :: "string \<times> pdict"
    assume h: "(\<forall>q' \<in> set bs. accepted lvl (snd q')) \<and> \<not> accepted lvl (snd q)"
    obtain n' c' where q: "q = (n', c')"
      by (cases q)
    show "generate_params lvl (bs @ q # as) = Inl (param_error q)"
      using h generate_params_first_rejected[of bs lvl c' n' as] by (simp add: q)
  qed
  have acc: "accepted lvl c \<longleftrightarrow>
      target_of (dget c ''in'') \<noteq> None \<and> (lvl = 2 \<longrightarrow> has_truthy_default c)"
    by (simp add: accepted_def)
  have nod: "target_of (dget c ''in'') \<noteq> None \<longrightarrow>
      param_error (n, c) = NoDefaultValue (dget c ''in'') n"
    by (simp add: param_error_def)
  obtain q where q: "q \<in> set ps" "\<not> accepted lvl (snd q)"
    "generate_params lvl ps = Inl (param_error q)"
    using generate_params_rejected[OF mem rej] by blast
  have fails: "generate_params lvl (operation_params md) = Inl (param_error q)"
    using q(3) assms(3) by (simp add: operation_params_def)
  have kind: "target_of (dget (snd q) ''in'') = None \<and>
      param_error q = NotValidIn (fst q) (dget (snd q) ''in'') (snd q)" if "lvl \<noteq> 2"
    using that q(2) by (cases q) (auto simp: accepted_def param_error_def)
  have tail: "\<exists>q \<in> set ps.
          generate_params lvl ps = Inl (param_error q)
          \<and> (lvl \<noteq> 2 \<longrightarrow>
                target_of (dget (snd q) ''in'') = None \<and>
                param_error q = NotValidIn (fst q) (dget (snd q) ''in'') (snd q))
          \<and> process_operation E lvl path (m, md) st =
                st\<lparr>warnings := warnings st @ [ValueError (param_error q)]\<rparr>
          \<and> fst (generate_locustfile E lvl vars
                   (sd\<lparr>paths := pre @ (path, ms1 @ (m, md) # ms2) # post\<rparr>)) =
              fst (generate_locustfile E lvl vars
                   (sd\<lparr>paths := pre @ (path, ms1 @ ms2) # post\<rparr>))
          \<and> fst (snd (generate_locustfile E lvl vars
                   (sd\<lparr>paths := pre @ (path, ms1 @ (m, md) # ms2) # post\<rparr>))) =
              fst (snd (generate_locustfile E lvl vars
                   (sd\<lparr>paths := pre @ (path, ms1 @ ms2) # post\<rparr>)))
          \<and> ValueError (param_error q) \<in> set (snd (snd (generate_locustfile E lvl vars
                   (sd\<lparr>paths := pre @ (path, ms1 @ (m, md) # ms2) # post\<rparr>))))"
    using q(1) q(3) kind
      process_operation_failed[OF fails, where E = E and path = path and m = m and st = st]
      failed_operation_excluded[OF fails, where E = E and vars = vars and sd = sd and pre = pre
        and path = path and ?ms1.0 = ms1 and m = m and ?ms2.0 = ms2 and post = post]
    by blast
  have first': "(\<forall>q \<in> set before. target_of (dget (snd q) ''in'') \<noteq> None \<and>
        (lvl = 2 \<longrightarrow> has_truthy_default (snd q))) \<longrightarrow>
      generate_params lvl ps = Inl (NotValidIn p (dget cfg ''in'') cfg)"
    using first by blast
  show ?thesis
    by (intro conjI known one first' gen acc nod tail)
qed

theorem invalid_location_fails_operation_witness:
  "generate_params 2
      [(''limit'', example_param ''limit'' ''query'' (PBool False) (PInt 10)),
       (''b'', example_param ''b'' ''body'' (PBool True) (PInt 1))] =
     Inl (NotValidIn ''b'' (PStr ''body'') (example_param ''b'' ''body'' (PBool True) (PInt 1)))
   \<and> extract_param 0 (''b'', example_param ''b'' ''body'' (PBool True) (PInt 1)) example_extracted =
     Inl (NotValidIn ''b'' (PStr ''body'') (example_param ''b'' ''body'' (PBool True) (PInt 1)))
   \<and> fst (generate_locustfile example_env 0 []
        (example_sd\<lparr>paths :=
           [(''/a'', [(''get'', example_badloc_md), (''post'', example_ok_md)])]\<rparr>)) =
       Inr ''|test_0_case_0 post /a {} {} {};test_0_case_1 post /a {limit: 10} {} {};|None|h''
   \<and> ValueError (NotValidIn ''b'' (PStr ''body'')
         (example_param ''b'' ''body'' (PBool True) (PInt 1))) \<in>
       set (snd (snd (generate_locustfile example_env 0 []
        (example_sd\<lparr>paths :=
           [(''/a'', [(''get'', example_badloc_md), (''post'', example_ok_md)])]\<rparr>))))"
proof -
  let ?cfg = "example_param ''b'' ''body'' (PBool True) (PInt 1)"
  let ?lim = "example_param ''limit'' ''query'' (PBool False) (PInt 10)"
  let ?ps = "[(''b'', ?cfg)]"
  let ?ps2 = "[(''limit'', ?lim), (''b'', ?cfg)]"
  have a: "?ps = [] @ (''b'', ?cfg) # []"
    by simp
  have a2: "?ps2 = [(''limit'', ?lim)] @ (''b'', ?cfg) # []"
    by simp
  have loc: "dget ?cfg ''in'' = PStr ''body''"
    by (simp add: example_param_def dget_def)
  have b: "target_of (dget ?cfg ''in'') = None"
    by (simp add: loc target_of_def)
  have c: "params example_badloc_md = Some ?ps"
    by (simp add: example_badloc_md_def)
  have c2: "params \<lparr>params = Some ?ps2\<rparr> = Some ?ps2"
    by simp
  have ok: "\<forall>q \<in> set [(''limit'', ?lim)]. target_of (dget (snd q) ''in'') \<noteq> None \<and>
      ((2::int) = 2 \<longrightarrow> has_truthy_default (snd q))"
    by (simp add: example_param_def dget_def target_of_def has_truthy_default_def)
  note t2 = invalid_location_fails_operation[OF a2 b c2, where lvl = 2]
  have two: "generate_params 2 ?ps2 = Inl (NotValidIn ''b'' (PStr ''body'') ?cfg)"
    using t2[THEN conjunct2, THEN conjunct2, THEN conjunct1, THEN mp, OF ok]
    by (simp only: loc)
  note t = invalid_location_fails_operation
    [OF a b c, where lvl = 0 and ex = example_extracted and E = example_env
       and path = "''/a''" and m = "''get''" and vars = "[]"
       and sd = example_sd and pre = "[]" and ?ms1.0 = "[]"
       and ?ms2.0 = "[(''post'', example_ok_md)]" and post = "[]", unfolded append.simps]
  have one: "extract_param 0 (''b'', ?cfg) example_extracted =
      Inl (NotValidIn ''b'' (PStr ''body'') ?cfg)"
    using t[THEN conjunct2, THEN conjunct1] by (simp only: loc)
  note t7 = t[THEN conjunct2, THEN conjunct2, THEN conjunct2, THEN conjunct2, THEN conjunct2,
    THEN conjunct2]
  from t7 obtain q where q: "q \<in> set ?ps"
    and q2: "(0::int) \<noteq> 2 \<longrightarrow> target_of (dget (snd q) ''in'') = None \<and>
       param_error q = NotValidIn (fst q) (dget (snd q) ''in'') (snd q)"
    and q3: "fst (generate_locustfile example_env 0 []
        (example_sd\<lparr>paths :=
           [(''/a'', [(''get'', example_badloc_md), (''post'', example_ok_md)])]\<rparr>)) =
       fst (generate_locustfile example_env 0 []
        (example_sd\<lparr>paths := [(''/a'', [(''post'', example_ok_md)])]\<rparr>))"
    and q4: "ValueError (param_error q) \<in> set (snd (snd (generate_locustfile example_env 0 []
        (example_sd\<lparr>paths :=
           [(''/a'', [(''get'', example_badloc_md), (''post'', example_ok_md)])]\<rparr>))))"
    by blast
  have qe: "q = (''b'', ?cfg)"
    using q by simp
  have pe: "param_error q = NotValidIn ''b'' (PStr ''body'') ?cfg"
    using q2 by (simp add: qe loc)
  show ?thesis
    using two one q3 q4 by (simp add: pe example_ok_run)
qed

text \<open>
  The claim as the specification states it fails at strict level 2 on an operation whose
  first parameter has no default and whose second has an unknown location: extraction
  fails with the missing-default error of the first, not with the location error.
\<close>

theorem invalid_location_after_missing_default:
  "target_of (dget (example_param ''b'' ''body'' (PBool True) (PInt 1)) ''in'') = None
   \<and> generate_params 2
       [(''a'', example_param ''a'' ''query'' (PBool True) PNone),
        (''b'', example_param ''b'' ''body'' (PBool True) (PInt 1))] =
     Inl (NoDefaultValue (PStr ''query'') ''a'')"
  by (simp add: generate_params_def extract_params_def extract_param_def example_param_def
      dget_def target_of_def)

section \<open>The cross product and the sequence counter\<close>

lemma cross_product_product:
  "cross_product pc =
     List.product (path_params pc)
       (List.product (query_params pc) (List.product (header_params pc) (cookie_params pc)))"
  by (simp add: cross_product_def product_concat_map map_concat comp_def)

lemma index_bound:
  fixes i j m n :: nat
  assumes "i < m" and "j < n"
  shows "i * n + j < m * n"
proof -
  have "i * n + j < i * n + n"
    using assms(2) by simp
  also have "\<dots> = Suc i * n"
    by simp
  also have "\<dots> \<le> m * n"
    using assms(1) by (intro mult_le_mono1) simp
  finally show ?thesis .
qed

lemma product_nth_index:
  assumes "i < length xs" and "j < length ys"
  shows "i * length ys + j < length (List.product xs ys)"
    and "List.product xs ys ! (i * length ys + j) = (xs ! i, ys ! j)"
proof -
  show lt: "i * length ys + j < length (List.product xs ys)"
    using index_bound[OF assms] by simp
  have pos: "0 < length ys"
    using assms(2) by (cases ys) simp_all
  have "(i * length ys + j) div length ys = i" "(i * length ys + j) mod length ys = j"
    using assms(2) pos by simp_all
  then show "List.product xs ys ! (i * length ys + j) = (xs ! i, ys ! j)"
    using lt by (simp add: product_nth)
qed

lemma cross_product_nth:
  assumes "a < length (path_params pc)" and "b < length (query_params pc)"
    and "c < length (header_params pc)" and "d < length (cookie_params pc)"
  shows "a * (length (query_params pc) * length (header_params pc) * length (cookie_params pc))
           + b * (length (header_params pc) * length (cookie_params pc))
           + c * length (cookie_params pc) + d < length (cross_product pc)"
    and "cross_product pc !
          (a * (length (query_params pc) * length (header_params pc) * length (cookie_params pc))
           + b * (length (header_params pc) * length (cookie_params pc))
           + c * length (cookie_params pc) + d) =
         (path_params pc ! a, query_params pc ! b, header_params pc ! c, cookie_params pc ! d)"
proof -
  let ?P = "path_params pc" and ?Q = "query_params pc"
  let ?H = "header_params pc" and ?C = "cookie_params pc"
  let ?HC = "List.product ?H ?C"
  let ?QHC = "List.product ?Q ?HC"
  have hc: "c * length ?C + d < length ?HC" "?HC ! (c * length ?C + d) = (?H ! c, ?C ! d)"
    using product_nth_index[OF assms(3,4)] by simp_all
  have qhc: "b * length ?HC + (c * length ?C + d) < length ?QHC"
    "?QHC ! (b * length ?HC + (c * length ?C + d)) = (?Q ! b, ?H ! c, ?C ! d)"
    using product_nth_index[OF assms(2) hc(1)] hc(2) by simp_all
  have all: "a * length ?QHC + (b * length ?HC + (c * length ?C + d)) <
      length (List.product ?P ?QHC)"
    "List.product ?P ?QHC ! (a * length ?QHC + (b * length ?HC + (c * length ?C + d))) =
      (?P ! a, ?Q ! b, ?H ! c, ?C ! d)"
    using product_nth_index[OF assms(1) qhc(1)] qhc(2) by simp_all
  have idx: "a * length ?QHC + (b * length ?HC + (c * length ?C + d)) =
      a * (length ?Q * length ?H * length ?C) + b * (length ?H * length ?C)
        + c * length ?C + d"
    by (simp add: mult.assoc)
  show "a * (length ?Q * length ?H * length ?C) + b * (length ?H * length ?C)
      + c * length ?C + d < length (cross_product pc)"
    using all(1) by (simp only: idx cross_product_product)
  show "cross_product pc ! (a * (length ?Q * length ?H * length ?C)
      + b * (length ?H * length ?C) + c * length ?C + d) = (?P ! a, ?Q ! b, ?H ! c, ?C ! d)"
    using all(2) by (simp only: idx cross_product_product)
qed

text \<open>
  C4. Started with case counter 0, the nested loops of an operation append one test
  function per tuple of the cross product of the four combination lists and leave the
  counter at the number of tuples, the product of the four lengths. The tuples come in
  the order of \<open>List.product\<close>, path slowest and cookie fastest: the tuple made of the
  entries \<open>a\<close>, \<open>b\<close>, \<open>c\<close>, \<open>d\<close> of the four lists has case index
  \<open>a * (|Q| * |H| * |C|) + b * (|H| * |C|) + c * |C| + d\<close>. The function with case
  index \<open>i\<close> is named \<open>test_<operation sequence>_case_<i>\<close> and is rendered from tuple \<open>i\<close>.
\<close>

theorem case_assembler_emits_cross_product:
  "assemble_cases E tc m path pc (fs, 0, vars) =
     (fs @ render_cases E tc m path 0 (cross_product pc), length (cross_product pc),
      register (concat (map (tuple_placeholders E tc) (cross_product pc))) vars)
   \<and> length (render_cases E tc m path 0 (cross_product pc)) =
       length (path_params pc) * length (query_params pc) *
       length (header_params pc) * length (cookie_params pc)
   \<and> cross_product pc =
       List.product (path_params pc)
         (List.product (query_params pc) (List.product (header_params pc) (cookie_params pc)))
   \<and> (\<forall>i < length (cross_product pc).
         render_cases E tc m path 0 (cross_product pc) ! i =
           FUNC_TEMPLATE E (''test_'' @ str_nat tc @ ''_case_'' @ str_nat i) m path
             (format_text E (fst (cross_product pc ! i)) tc ''path'')
             (format_text E (fst (snd (cross_product pc ! i))) tc ''query'')
             (format_text E (fst (snd (snd (cross_product pc ! i)))) tc ''header'')
             (format_text E (snd (snd (snd (cross_product pc ! i)))) tc ''cookie''))
   \<and> (\<forall>a b c d.
         a < length (path_params pc) \<and> b < length (query_params pc) \<and>
         c < length (header_params pc) \<and> d < length (cookie_params pc) \<longrightarrow>
         a * (length (query_params pc) * length (header_params pc) * length (cookie_params pc))
           + b * (length (header_params pc) * length (cookie_params pc))
           + c * length (cookie_params pc) + d < length (cross_product pc)
         \<and> cross_product pc !
             (a * (length (query_params pc) * length (header_params pc)
                    * length (cookie_params pc))
              + b * (length (header_params pc) * length (cookie_params pc))
              + c * length (cookie_params pc) + d) =
            (path_params pc ! a, query_params pc ! b, header_params pc ! c,
             cookie_params pc ! d))
   \<and> (generate_params lvl (operation_params md) = Inr pc \<longrightarrow>
         funcs (process_operation E lvl path (m, md) st) =
           funcs st @ render_cases E (test_count st) m path 0 (cross_product pc))"
proof -
  have loops: "assemble_cases E tc m path pc (fs, 0, vars) =
     (fs @ render_cases E tc m path 0 (cross_product pc), length (cross_product pc),
      register (concat (map (tuple_placeholders E tc) (cross_product pc))) vars)"
    by (simp add: assemble_cases_eq cases_effect_def)
  have count: "length (render_cases E tc m path 0 (cross_product pc)) =
       length (path_params pc) * length (query_params pc) *
       length (header_params pc) * length (cookie_params pc)"
    by (simp only: length_render_cases length_cross_product)
  have each: "render_cases E tc m path 0 (cross_product pc) ! i =
           FUNC_TEMPLATE E (''test_'' @ str_nat tc @ ''_case_'' @ str_nat i) m path
             (format_text E (fst (cross_product pc ! i)) tc ''path'')
             (format_text E (fst (snd (cross_product pc ! i))) tc ''query'')
             (format_text E (fst (snd (snd (cross_product pc ! i)))) tc ''header'')
             (format_text E (snd (snd (snd (cross_product pc ! i)))) tc ''cookie'')"
    if "i < length (cross_product pc)" for i
    using nth_render_cases[OF that, of E tc m path 0]
    by (simp add: render_case_def func_name_def split_def)
  have proc: "funcs (process_operation E lvl path (m, md) st) =
      funcs st @ render_cases E (test_count st) m path 0 (cross_product pc)"
    if "generate_params lvl (operation_params md) = Inr pc"
    by (simp add: process_operation_succeeded[OF that])
  show ?thesis
    using loops count cross_product_product[of pc] each cross_product_nth[of _ pc] proc
    by blast
qed

theorem case_assembler_emits_cross_product_witness:
  "cross_product example_pc ! 3 =
     ([], [example_param ''a'' ''query'' (PBool False) PNone],
      [example_param ''b'' ''header'' (PBool False) (PInt 7)], [])
   \<and> length (render_cases example_env 0 ''get'' ''/a'' 0 (cross_product example_pc)) = 4
   \<and> render_cases example_env 0 ''get'' ''/a'' 0 (cross_product example_pc) ! 3 =
       ''test_0_case_3 get /a {a: a_test_0} {b: 7} {};''"
proof -
  let ?qa = "example_param ''a'' ''query'' (PBool False) PNone"
  let ?hb = "example_param ''b'' ''header'' (PBool False) (PInt 7)"
  note t = case_assembler_emits_cross_product
    [where E = example_env and tc = 0 and m = "''get''" and path = "''/a''" and pc = example_pc]
  have lens: "length (path_params example_pc) = 1" "length (query_params example_pc) = 2"
    "length (header_params example_pc) = 2" "length (cookie_params example_pc) = 1"
    by (simp_all add: example_pc_def)
  have nths: "path_params example_pc ! 0 = []" "query_params example_pc ! Suc 0 = [?qa]"
    "header_params example_pc ! Suc 0 = [?hb]" "cookie_params example_pc ! 0 = []"
    by (simp_all add: example_pc_def)
  have len: "length (render_cases example_env 0 ''get'' ''/a'' 0 (cross_product example_pc)) = 4"
    using conjunct1[OF conjunct2[OF t]] by (simp add: lens)
  from t have "\<forall>a b c d.
      a < length (path_params example_pc) \<and> b < length (query_params example_pc) \<and>
      c < length (header_params example_pc) \<and> d < length (cookie_params example_pc) \<longrightarrow>
      a * (length (query_params example_pc) * length (header_params example_pc)
           * length (cookie_params example_pc))
        + b * (length (header_params example_pc) * length (cookie_params example_pc))
        + c * length (cookie_params example_pc) + d < length (cross_product example_pc)
      \<and> cross_product example_pc !
          (a * (length (query_params example_pc) * length (header_params example_pc)
                * length (cookie_params example_pc))
           + b * (length (header_params example_pc) * length (cookie_params example_pc))
           + c * length (cookie_params example_pc) + d) =
         (path_params example_pc ! a, query_params example_pc ! b,
          header_params example_pc ! c, cookie_params example_pc ! d)"
    by blast
  from this[rule_format, of 0 1 1 0]
  have lt: "3 < length (cross_product example_pc)"
    and tuple: "cross_product example_pc ! 3 = ([], [?qa], [?hb], [])"
    by (simp_all add: lens nths eval_nat_numeral)
  from t have "\<forall>i < length (cross_product example_pc).
      render_cases example_env 0 ''get'' ''/a'' 0 (cross_product example_pc) ! i =
        FUNC_TEMPLATE example_env (''test_'' @ str_nat 0 @ ''_case_'' @ str_nat i) ''get'' ''/a''
          (format_text example_env (fst (cross_product example_pc ! i)) 0 ''path'')
          (format_text example_env (fst (snd (cross_product example_pc ! i))) 0 ''query'')
          (format_text example_env (fst (snd (snd (cross_product example_pc ! i)))) 0 ''header'')
          (format_text example_env (snd (snd (snd (cross_product example_pc ! i)))) 0 ''cookie'')"
    by blast
  from this[rule_format, OF lt]
  have "render_cases example_env 0 ''get'' ''/a'' 0 (cross_product example_pc) ! 3 =
      ''test_0_case_3 get /a {a: a_test_0} {b: 7} {};''"
    by (simp add: tuple format_text_def pair_text_def value_text_def token_def py_str_def
        example_param_def dget_def example_env_fields example_key_def example_repr_def
        str_nat.simps)
  then show ?thesis
    using tuple len by blast
qed

lemma test_count_step:
  "test_count (op_step E lvl x st) =
     test_count st + (if extraction_succeeds lvl x then 1 else 0)"
proof -
  obtain path m md where x: "x = (path, m, md)"
    by (cases x)
  show ?thesis
    by (cases "generate_params lvl (operation_params md)")
       (simp_all add: x op_step_def extraction_succeeds_def process_operation_failed
          process_operation_succeeded)
qed

lemma test_count_fold:
  "test_count (fold (op_step E lvl) xs st) =
     test_count st + length (filter (extraction_succeeds lvl) xs)"
  by (induction xs arbitrary: st) (simp_all add: test_count_step)

lemma op_step_triple: "op_step E lvl (path, m, md) = process_operation E lvl path (m, md)"
  by (simp add: op_step_def)

text \<open>
  C10. The sequence counter counts the operations whose extraction succeeds. A failed
  operation leaves it unchanged; a successful one names its functions and placeholders
  with the current value and then adds one. So the operation that follows the operations
  \<open>before\<close> is processed with the counter at the start value plus the number of operations
  of \<open>before\<close> whose extraction succeeds, whatever the number of failed ones.
\<close>

theorem sequence_counter_counts_successful_operations:
  "test_count (run_operations E lvl pd st) =
     test_count st + length (filter (extraction_succeeds lvl) (operations pd))
   \<and> (generate_params lvl (operation_params md) = Inl e \<longrightarrow>
         \<not> extraction_succeeds lvl (path, m, md) \<and>
         test_count (process_operation E lvl path (m, md) st) = test_count st)
   \<and> (generate_params lvl (operation_params md) = Inr pc \<longrightarrow>
         extraction_succeeds lvl (path, m, md) \<and>
         test_count (process_operation E lvl path (m, md) st) = test_count st + 1 \<and>
         funcs (process_operation E lvl path (m, md) st) =
           funcs st @ render_cases E (test_count st) m path 0 (cross_product pc) \<and>
         vars_without_values (process_operation E lvl path (m, md) st) =
           register (concat (map (tuple_placeholders E (test_count st)) (cross_product pc)))
             (vars_without_values st))
   \<and> (operations pd = before @ (path, m, md) # after \<longrightarrow>
         run_operations E lvl pd st =
           fold (op_step E lvl) after
             (process_operation E lvl path (m, md) (fold (op_step E lvl) before st)) \<and>
         test_count (fold (op_step E lvl) before st) =
           test_count st + length (filter (extraction_succeeds lvl) before))"
proof -
  have a: "test_count (run_operations E lvl pd st) =
      test_count st + length (filter (extraction_succeeds lvl) (operations pd))"
    by (simp only: run_operations_flat test_count_fold)
  have b: "\<not> extraction_succeeds lvl (path, m, md) \<and>
      test_count (process_operation E lvl path (m, md) st) = test_count st"
    if "generate_params lvl (operation_params md) = Inl e"
    using that by (simp add: process_operation_failed extraction_succeeds_def)
  have c: "extraction_succeeds lvl (path, m, md) \<and>
      test_count (process_operation E lvl path (m, md) st) = test_count st + 1 \<and>
      funcs (process_operation E lvl path (m, md) st) =
        funcs st @ render_cases E (test_count st) m path 0 (cross_product pc) \<and>
      vars_without_values (process_operation E lvl path (m, md) st) =
        register (concat (map (tuple_placeholders E (test_count st)) (cross_product pc)))
          (vars_without_values st)"
    if "generate_params lvl (operation_params md) = Inr pc"
    using that by (simp add: process_operation_succeeded extraction_succeeds_def)
  have d: "run_operations E lvl pd st =
      fold (op_step E lvl) after
        (process_operation E lvl path (m, md) (fold (op_step E lvl) before st)) \<and>
      test_count (fold (op_step E lvl) before st) =
        test_count st + length (filter (extraction_succeeds lvl) before)"
    if "operations pd = before @ (path, m, md) # after"
    using that by (simp add: run_operations_flat test_count_fold op_step_triple)
  show ?thesis
    using a b c d by blast
qed

theorem sequence_counter_counts_successful_operations_witness:
  "test_count (run_operations example_env 2
      [(''/a'', [(''get'', example_nodefault_md), (''post'', example_ok_md)])] example_state) = 1
   \<and> test_count (process_operation example_env 2 ''/a'' (''get'', example_nodefault_md)
        example_state) = 0
   \<and> funcs (run_operations example_env 2
      [(''/a'', [(''get'', example_nodefault_md), (''post'', example_ok_md)])] example_state) =
      [''test_0_case_0 post /a {} {} {};'', ''test_0_case_1 post /a {limit: 10} {} {};'']"
proof -
  let ?pd = "[(''/a'', [(''get'', example_nodefault_md), (''post'', example_ok_md)])]"
  let ?pc = "\<lparr>path_params = [[]],
      query_params = [[], [example_param ''limit'' ''query'' (PBool False) (PInt 10)]],
      header_params = [[]], cookie_params = [[]]\<rparr>"
  have bad: "generate_params 2 (operation_params example_nodefault_md) =
      Inl (NoDefaultValue (PStr ''path'') ''id'')"
    by (simp add: generate_params_def extract_params_def extract_param_def
        operation_params_def example_nodefault_md_def example_param_def dget_def target_of_def)
  have ok: "generate_params 2 (operation_params example_ok_md) = Inr ?pc"
    by (simp add: generate_params_def extract_params_def extract_param_def
        operation_params_def example_ok_md_def example_param_def dget_def target_of_def
        empty_bucket_def bucket_append_def create_params_combinations_def)
  have ops: "operations ?pd =
      [(''/a'', ''get'', example_nodefault_md)] @ (''/a'', ''post'', example_ok_md) # []"
    by (simp add: operations_def)
  have cnt: "length (filter (extraction_succeeds 2) (operations ?pd)) = 1"
    "length (filter (extraction_succeeds 2) [(''/a'', ''get'', example_nodefault_md)]) = 0"
    by (simp_all add: operations_def extraction_succeeds_def bad ok)
  have st0: "test_count example_state = 0" "funcs example_state = []"
    by (simp_all add: example_state_def)
  note bad_t = sequence_counter_counts_successful_operations
    [where E = example_env and lvl = 2 and pd = ?pd and st = example_state
       and md = example_nodefault_md and path = "''/a''" and m = "''get''"
       and e = "NoDefaultValue (PStr ''path'') ''id''"]
  note ok_t = sequence_counter_counts_successful_operations
    [where E = example_env and lvl = 2 and pd = ?pd and st = example_state
       and md = example_ok_md and path = "''/a''" and m = "''post''" and pc = ?pc
       and before = "[(''/a'', ''get'', example_nodefault_md)]" and after = "[]"]
  have one: "test_count (run_operations example_env 2 ?pd example_state) = 1"
    using bad_t by (simp add: cnt st0)
  have skip: "process_operation example_env 2 ''/a'' (''get'', example_nodefault_md) example_state
      = example_state\<lparr>warnings := warnings example_state @
          [ValueError (NoDefaultValue (PStr ''path'') ''id'')]\<rparr>"
    by (rule process_operation_failed[OF bad])
  have zero: "test_count (process_operation example_env 2 ''/a'' (''get'', example_nodefault_md)
      example_state) = 0"
    using bad_t bad by (simp add: st0)
  have run: "run_operations example_env 2 ?pd example_state =
      process_operation example_env 2 ''/a'' (''post'', example_ok_md)
        (process_operation example_env 2 ''/a'' (''get'', example_nodefault_md) example_state)"
    using ok_t ops by (simp add: op_step_triple)
  have "funcs (process_operation example_env 2 ''/a'' (''post'', example_ok_md) s) =
      funcs s @ render_cases example_env (test_count s) ''post'' ''/a'' 0 (cross_product ?pc)"
    for s
    using sequence_counter_counts_successful_operations
      [where E = example_env and lvl = 2 and st = s and md = example_ok_md
         and path = "''/a''" and m = "''post''" and pc = ?pc] ok
    by blast
  then have "funcs (run_operations example_env 2 ?pd example_state) =
      [''test_0_case_0 post /a {} {} {};'', ''test_0_case_1 post /a {limit: 10} {} {};'']"
    by (simp add: run skip st0 cross_product_def render_case_def func_name_def format_text_def
        pair_text_def value_text_def example_param_def dget_def example_env_fields
        example_key_def example_repr_def str_nat.simps)
  then show ?thesis
    using one zero by blast
qed

section \<open>The placeholder table\<close>

lemma register_Cons: "register ((k, v) # ws) vars = register ws (AList.update k v vars)"
  by (simp add: register_def)

lemma map_of_register:
  "map_of (register ws vars) k =
     (case map_of (rev ws) k of None \<Rightarrow> map_of vars k | Some v \<Rightarrow> Some v)"
proof (induction ws arbitrary: vars)
  case Nil
  then show ?case by (simp add: register_Nil)
next
  case (Cons w ws)
  obtain k' v where w: "w = (k', v)"
    by (cases w)
  show ?case
    by (simp add: w register_Cons Cons.IH update_conv' map_add_def split: option.splits)
qed

lemma distinct_register:
  "distinct (map fst vars) \<Longrightarrow> distinct (map fst (register ws vars))"
proof (induction ws arbitrary: vars)
  case Nil
  then show ?case by (simp add: register_Nil)
next
  case (Cons w ws)
  obtain k' v where w: "w = (k', v)"
    by (cases w)
  show ?case
    using Cons.prems by (simp add: w register_Cons Cons.IH distinct_update)
qed

lemma keys_register_existing:
  "fst ` set ws \<subseteq> fst ` set vars \<Longrightarrow> map fst (register ws vars) = map fst vars"
proof (induction ws arbitrary: vars)
  case Nil
  then show ?case by (simp add: register_Nil)
next
  case (Cons w ws)
  obtain k' v where w: "w = (k', v)"
    by (cases w)
  have k: "k' \<in> fst ` set vars" and rest: "fst ` set ws \<subseteq> fst ` set vars"
    using Cons.prems w by auto
  have keys: "map fst (AList.update k' v vars) = map fst vars"
    using k by (simp add: update_keys)
  then have "fst ` set (AList.update k' v vars) = fst ` set vars"
    by (metis set_map)
  then show ?case
    using Cons.IH[of "AList.update k' v vars"] rest keys by (simp add: w register_Cons)
qed

lemma keys_register_subset: "fst ` set ws \<subseteq> fst ` set (register ws vars)"
proof -
  have "k \<in> fst ` set (register ws vars)" if "k \<in> fst ` set ws" for k
  proof -
    have "k \<in> fst ` set (rev ws)"
      using that by simp
    then obtain v where "map_of (rev ws) k = Some v"
      by (metis domD dom_map_of_conv_image_fst)
    then have "map_of (register ws vars) k = Some v"
      by (simp add: map_of_register)
    then show ?thesis
      by (metis domI dom_map_of_conv_image_fst)
  qed
  then show ?thesis by blast
qed

lemma alist_eqI:
  "distinct (map fst xs) \<Longrightarrow> map fst xs = map fst ys \<Longrightarrow> map_of xs = map_of ys \<Longrightarrow> xs = ys"
proof (induction xs arbitrary: ys)
  case Nil
  then show ?case by simp
next
  case (Cons x xs)
  obtain y ys' where ys: "ys = y # ys'"
    using Cons.prems(2) by (cases ys) auto
  have k: "fst x = fst y" and keys: "map fst xs = map fst ys'"
    using Cons.prems(2) ys by auto
  have eq: "map_of (x # xs) k' = map_of (y # ys') k'" for k'
    by (metis Cons.prems(3) ys)
  have "map_of (x # xs) (fst x) = map_of (y # ys') (fst x)"
    by (rule eq)
  then have xy: "x = y"
    using k by (cases x; cases y) auto
  have nx: "fst x \<notin> fst ` set xs" and ny: "fst x \<notin> fst ` set ys'"
    using Cons.prems(1) keys by (auto simp flip: set_map)
  have "map_of xs k' = map_of ys' k'" for k'
  proof (cases "k' = fst x")
    case True
    then show ?thesis
      using nx ny by (metis map_of_eq_None_iff)
  next
    case False
    have "map_of (x # xs) k' = map_of (y # ys') k'"
      by (rule eq)
    then show ?thesis
      using False xy by (cases x) auto
  qed
  then have "map_of xs = map_of ys'"
    by (rule ext)
  then show ?case
    using Cons.IH[of ys'] Cons.prems(1) keys xy ys by simp
qed

lemma register_idem:
  assumes "distinct (map fst vars)"
  shows "register ws (register ws vars) = register ws vars"
proof (rule alist_eqI)
  show "distinct (map fst (register ws (register ws vars)))"
    using assms by (intro distinct_register)
  show "map fst (register ws (register ws vars)) = map fst (register ws vars)"
    by (rule keys_register_existing) (rule keys_register_subset)
  show "map_of (register ws (register ws vars)) = map_of (register ws vars)"
    by (rule ext) (simp add: map_of_register split: option.splits)
qed

text \<open>
  C5. \<open>_format_params\<close> renders every parameter of the list and registers the
  placeholders of those without a non-empty default: the value of a parameter is the
  \<open>repr\<close> of its non-empty default, and otherwise the token
  \<open><name>_test_<operation sequence>\<close>, stored in the table under the parameter's
  configuration. The token is a function of the name and the sequence number alone.
  Registration is dictionary assignment: the table holds, under each token, the last
  configuration written (or the old one when none was written) and keeps one entry per
  token. An operation registers the placeholders of all tuples of its cross product, and
  the script lists one line \<open>name = "#"  # <configuration>\<close> per entry of the table.
\<close>

theorem placeholders_are_shared_per_name_and_operation:
  "format_params E rp tc ty vars =
     (format_text E rp tc ty, register (placeholders E rp tc) vars)
   \<and> value_text E p tc =
       (if truthy (dget p ''default'') then repr E (dget p ''default'') else token E p tc)
   \<and> token E p tc = py_str E (dget p ''name'') @ ''_test_'' @ str_nat tc
   \<and> (dget p ''name'' = PStr n \<longrightarrow> token E p tc = n @ ''_test_'' @ str_nat tc)
   \<and> (dget p ''name'' = dget p' ''name'' \<longrightarrow> token E p tc = token E p' tc)
   \<and> placeholders E rp tc =
       map (\<lambda>p. (token E p tc, p)) (filter (\<lambda>p. \<not> truthy (dget p ''default'')) rp)
   \<and> map_of (register ws vars) k =
       (case map_of (rev ws) k of None \<Rightarrow> map_of vars k | Some v \<Rightarrow> Some v)
   \<and> (distinct (map fst vars) \<longrightarrow> distinct (map fst (register ws vars)))
   \<and> (generate_params lvl (operation_params md) = Inr pc \<longrightarrow>
         vars_without_values (process_operation E lvl path (m, md) st) =
           register (concat (map (tuple_placeholders E (test_count st)) (cross_product pc)))
             (vars_without_values st))
   \<and> generate_code_from_template E vars tcs sc h =
       FILE_TEMPLATE E
         (join [CHR 0x0A]
            (map (\<lambda>(name, meta).
                    name @ '' = '' @ [CHR 0x22] @ ''#'' @ [CHR 0x22] @ ''  # '' @
                    py_str E (PDict meta))
               vars))
         tcs sc h"
proof -
  have proc: "vars_without_values (process_operation E lvl path (m, md) st) =
      register (concat (map (tuple_placeholders E (test_count st)) (cross_product pc)))
        (vars_without_values st)"
    if "generate_params lvl (operation_params md) = Inr pc"
    by (simp add: process_operation_succeeded[OF that])
  have code: "generate_code_from_template E vars tcs sc h =
       FILE_TEMPLATE E
         (join [CHR 0x0A]
            (map (\<lambda>(name, meta).
                    name @ '' = '' @ [CHR 0x22] @ ''#'' @ [CHR 0x22] @ ''  # '' @
                    py_str E (PDict meta))
               vars))
         tcs sc h"
    by (simp add: generate_code_from_template_def required_var_line_def)
  have tok: "dget p ''name'' = PStr n \<longrightarrow> token E p tc = n @ ''_test_'' @ str_nat tc"
    by (simp add: token_def py_str_def)
  have same: "dget p ''name'' = dget p' ''name'' \<longrightarrow> token E p tc = token E p' tc"
    by (simp add: token_def)
  show ?thesis
    using format_params_eq[of E rp tc ty vars] map_of_register[of ws vars k]
      distinct_register[of vars ws] proc code tok same
    by (simp add: value_text_def token_def placeholders_def)
qed

theorem placeholders_are_shared_per_name_and_operation_witness:
  "format_params example_env
      [example_param ''a'' ''query'' (PBool False) PNone,
       example_param ''b'' ''query'' (PBool False) (PInt 7)] 0 ''query'' [] =
     (''{a: a_test_0, b: 7}'', [(''a_test_0'', example_param ''a'' ''query'' (PBool False) PNone)])
   \<and> token example_env (example_param ''a'' ''query'' (PBool False) PNone) 0 = ''a_test_0''
   \<and> token example_env (example_param ''a'' ''header'' (PBool True) PNone) 0 = ''a_test_0''
   \<and> map_of
        (register
           [(''a_test_0'', example_param ''a'' ''query'' (PBool False) PNone),
            (''a_test_0'', example_param ''a'' ''header'' (PBool True) PNone)] [])
        ''a_test_0'' = Some (example_param ''a'' ''header'' (PBool True) PNone)
   \<and> distinct (map fst
        (register
           [(''a_test_0'', example_param ''a'' ''query'' (PBool False) PNone),
            (''a_test_0'', example_param ''a'' ''header'' (PBool True) PNone)] []))"
proof -
  let ?qa = "example_param ''a'' ''query'' (PBool False) PNone"
  let ?ha = "example_param ''a'' ''header'' (PBool True) PNone"
  let ?qb = "example_param ''b'' ''query'' (PBool False) (PInt 7)"
  note t = placeholders_are_shared_per_name_and_operation
    [where E = example_env and rp = "[?qa, ?qb]" and tc = 0 and ty = "''query''"
       and vars = "[]" and p = ?qa and p' = ?ha and n = "''a''"
       and ws = "[(''a_test_0'', ?qa), (''a_test_0'', ?ha)]" and k = "''a_test_0''"]
  have nm: "dget ?qa ''name'' = PStr ''a''" "dget ?qa ''name'' = dget ?ha ''name''"
    by (simp_all add: example_param_def dget_def)
  have d: "distinct (map fst ([] :: vars_table))"
    by simp
  have dq: "dget ?qa ''default'' = PNone" "dget ?qb ''default'' = PInt 7"
    "dget ?qa ''name'' = PStr ''a''" "dget ?qb ''name'' = PStr ''b''"
    by (simp_all add: example_param_def dget_def)
  have z: "str_nat 0 = ''0''"
    by (simp add: str_nat.simps)
  have "dget ?qa ''name'' = PStr ''a'' \<longrightarrow>
      token example_env ?qa 0 = ''a'' @ ''_test_'' @ str_nat 0"
    using t by blast
  then have tq: "token example_env ?qa 0 = ''a_test_0''"
    using nm(1) by (simp add: z)
  have "dget ?qa ''name'' = dget ?ha ''name'' \<longrightarrow>
      token example_env ?qa 0 = token example_env ?ha 0"
    using t by blast
  then have th: "token example_env ?ha 0 = ''a_test_0''"
    using nm(2) tq by simp
  have "format_params example_env [?qa, ?qb] 0 ''query'' [] =
      (format_text example_env [?qa, ?qb] 0 ''query'',
       register (placeholders example_env [?qa, ?qb] 0) [])"
    using t by blast
  then have fp: "format_params example_env [?qa, ?qb] 0 ''query'' [] =
      (''{a: a_test_0, b: 7}'', [(''a_test_0'', ?qa)])"
    by (simp add: format_text_def pair_text_def value_text_def placeholders_def register_def tq
        dq example_env_fields example_key_def example_repr_def str_nat.simps)
  have "map_of (register [(''a_test_0'', ?qa), (''a_test_0'', ?ha)] []) ''a_test_0'' =
      (case map_of (rev [(''a_test_0'', ?qa), (''a_test_0'', ?ha)]) ''a_test_0'' of
         None \<Rightarrow> map_of [] ''a_test_0'' | Some v \<Rightarrow> Some v)"
    using t by blast
  then have last: "map_of (register [(''a_test_0'', ?qa), (''a_test_0'', ?ha)] []) ''a_test_0'' =
      Some ?ha"
    by simp
  have one: "distinct (map fst (register [(''a_test_0'', ?qa), (''a_test_0'', ?ha)] []))"
    using t d by blast
  show ?thesis
    using fp tq th last one by blast
qed

section \<open>Running the generator twice\<close>

lemma op_step_writes:
  "\<exists>ws. \<forall>vs. op_step E lvl x (st\<lparr>vars_without_values := vs\<rparr>) =
     (op_step E lvl x st)\<lparr>vars_without_values := register ws vs\<rparr>"
proof -
  obtain path m md where x: "x = (path, m, md)"
    by (cases x)
  show ?thesis
  proof (cases "generate_params lvl (operation_params md)")
    case (Inl e)
    have "\<forall>vs. op_step E lvl x (st\<lparr>vars_without_values := vs\<rparr>) =
        (op_step E lvl x st)\<lparr>vars_without_values := register [] vs\<rparr>"
      by (simp add: x op_step_triple process_operation_failed[OF Inl] register_Nil)
    then show ?thesis ..
  next
    case (Inr pc)
    have "\<forall>vs. op_step E lvl x (st\<lparr>vars_without_values := vs\<rparr>) =
        (op_step E lvl x st)\<lparr>vars_without_values :=
          register (concat (map (tuple_placeholders E (test_count st)) (cross_product pc))) vs\<rparr>"
      by (simp add: x op_step_triple process_operation_succeeded[OF Inr])
    then show ?thesis ..
  qed
qed

lemma run_writes:
  "\<exists>ws. \<forall>vs. fold (op_step E lvl) xs (st\<lparr>vars_without_values := vs\<rparr>) =
     (fold (op_step E lvl) xs st)\<lparr>vars_without_values := register ws vs\<rparr>"
proof (induction xs arbitrary: st)
  case Nil
  have "\<forall>vs. fold (op_step E lvl) [] (st\<lparr>vars_without_values := vs\<rparr>) =
      (fold (op_step E lvl) [] st)\<lparr>vars_without_values := register [] vs\<rparr>"
    by (simp add: register_Nil)
  then show ?case ..
next
  case (Cons x xs)
  obtain w where w: "\<And>vs. op_step E lvl x (st\<lparr>vars_without_values := vs\<rparr>) =
      (op_step E lvl x st)\<lparr>vars_without_values := register w vs\<rparr>"
    using op_step_writes[of E lvl x st] by blast
  obtain ws where ws: "\<And>vs. fold (op_step E lvl) xs
        ((op_step E lvl x st)\<lparr>vars_without_values := vs\<rparr>) =
      (fold (op_step E lvl) xs (op_step E lvl x st))\<lparr>vars_without_values := register ws vs\<rparr>"
    using Cons.IH[of "op_step E lvl x st"] by blast
  have "\<forall>vs. fold (op_step E lvl) (x # xs) (st\<lparr>vars_without_values := vs\<rparr>) =
      (fold (op_step E lvl) (x # xs) st)\<lparr>vars_without_values := register (w @ ws) vs\<rparr>"
    by (simp add: w ws register_append)
  then show ?case ..
qed

lemma generate_test_cases_rerun:
  "generate_test_cases E lvl (vars_without_values (generate_test_cases E lvl [] pd)) pd =
     generate_test_cases E lvl [] pd"
proof -
  let ?st = "\<lparr>funcs = [], test_count = 0, vars_without_values = [], warnings = []\<rparr>"
  let ?f = "fold (op_step E lvl) (operations pd)"
  obtain ws where ws: "\<And>vs. ?f (?st\<lparr>vars_without_values := vs\<rparr>) =
      (?f ?st)\<lparr>vars_without_values := register ws vs\<rparr>"
    using run_writes[of E lvl "operations pd" ?st] by blast
  have first: "vars_without_values (?f ?st) = register ws []"
    using ws[of "[]"] by (metis gen_state.select_convs(3) gen_state.surjective
        gen_state.update_convs(3))
  have "?f (?st\<lparr>vars_without_values := register ws []\<rparr>) =
      (?f ?st)\<lparr>vars_without_values := register ws (register ws [])\<rparr>"
    by (rule ws)
  also have "\<dots> = (?f ?st)\<lparr>vars_without_values := register ws []\<rparr>"
    by (simp add: register_idem)
  also have "\<dots> = ?f ?st"
    by (simp flip: first)
  finally show ?thesis
    by (simp add: generate_test_cases_def run_operations_flat first)
qed

text \<open>
  C8. The generator has no source of nondeterminism: its result is a function of the
  templates, the strict level, the placeholder table it starts with and the
  specification. The table is the only state a run leaves behind, and a second run of
  the same generator object on the same specification, started with the table the first
  run left, returns the same script (or raises the same error), the same table and the
  same warnings as the first run of a fresh generator.
\<close>

theorem generate_locustfile_rerun_same_output:
  "generate_locustfile E lvl (fst (snd (generate_locustfile E lvl [] sd))) sd =
     generate_locustfile E lvl [] sd"
proof -
  have v: "fst (snd (generate_locustfile E lvl [] sd)) =
      vars_without_values (generate_test_cases E lvl [] (paths sd))"
    by (simp add: generate_locustfile_def Let_def split: option.splits sum.splits)
  show ?thesis
    unfolding v
    by (simp add: generate_locustfile_def[of E lvl "vars_without_values _"]
        generate_locustfile_def[of E lvl "[]"] generate_test_cases_rerun)
qed

theorem generate_locustfile_rerun_same_output_witness:
  "generate_locustfile example_env 0 [] example_placeholder_sd =
     (Inr (''a_test_0 = '' @ [CHR 0x22] @ ''#'' @ [CHR 0x22] @
           ''  # {..}|test_0_case_0 get /a {} {} {};test_0_case_1 get /a {a: a_test_0} {} {};|None|h''),
      [(''a_test_0'', example_param ''a'' ''query'' (PBool False) PNone)], [])
   \<and> generate_locustfile example_env 0
        [(''a_test_0'', example_param ''a'' ''query'' (PBool False) PNone)]
        example_placeholder_sd =
       generate_locustfile example_env 0 [] example_placeholder_sd"
proof -
  have first: "generate_locustfile example_env 0 [] example_placeholder_sd =
     (Inr (''a_test_0 = '' @ [CHR 0x22] @ ''#'' @ [CHR 0x22] @
           ''  # {..}|test_0_case_0 get /a {} {} {};test_0_case_1 get /a {a: a_test_0} {} {};|None|h''),
      [(''a_test_0'', example_param ''a'' ''query'' (PBool False) PNone)], [])"
    by (simp add: generate_locustfile_def generate_test_cases_def run_operations_def
      process_operation_def generate_params_def extract_params_def extract_param_def
      example_placeholder_sd_def example_param_def dget_def target_of_def
      empty_bucket_def bucket_append_def create_params_combinations_def assemble_cases_def
      emit_case_def format_params_def format_param_def example_env_fields example_key_def
      example_repr_def py_str_def str_nat.simps generate_code_from_template_def
      required_var_line_def Let_def)
  show ?thesis
    using generate_locustfile_rerun_same_output[of example_env 0 example_placeholder_sd]
    by (simp add: first)
qed

section \<open>Properties of the security case builder\<close>

lemma security_loop_append:
  "security_loop E (xs @ ys) acc =
     (case security_loop E xs acc of Inl e \<Rightarrow> Inl e | Inr acc' \<Rightarrow> security_loop E ys acc')"
  by (induction xs arbitrary: acc) (simp_all split: sum.splits)

lemma security_case_other:
  "t \<noteq> ''BasicAuth'' \<Longrightarrow> t \<noteq> ''apiKey'' \<Longrightarrow> security_case E (t, cfg) acc = Inr acc"
  by (simp add: security_case_def)

lemma security_case_bad_key:
  "dget cfg ''in'' = PStr l \<Longrightarrow> \<not> (lower l = ''header'' \<and> truthy (dget cfg ''name'')) \<Longrightarrow>
   security_case E (''apiKey'', cfg) acc = Inl (ValueError (SecurityConfig cfg))"
  by (auto simp: security_case_def)

lemma security_case_header_key:
  "dget cfg ''in'' = PStr l \<Longrightarrow> lower l = ''header'' \<Longrightarrow> truthy (dget cfg ''name'') \<Longrightarrow>
   security_case E (''apiKey'', cfg) acc =
     Inr (acc @ [AUTH_KEY_HEADER_TEMPLATE E (dget cfg ''name'')])"
  by (simp add: security_case_def)

lemma security_loop_filter:
  "security_loop E (filter (\<lambda>(t, c). t = ''BasicAuth'' \<or> t = ''apiKey'') sdata) acc =
     security_loop E sdata acc"
proof (induction sdata arbitrary: acc)
  case Nil
  then show ?case by simp
next
  case (Cons s sdata)
  obtain t c where s: "s = (t, c)"
    by (cases s)
  show ?case
  proof (cases "t = ''BasicAuth'' \<or> t = ''apiKey''")
    case True
    then show ?thesis
      by (auto simp: s Cons.IH split: sum.splits)
  next
    case False
    then show ?thesis
      by (simp add: s Cons.IH security_case_other)
  qed
qed

lemma security_loop_fails:
  assumes "s \<in> set sdata" and "\<And>acc. security_case E s acc = Inl e"
  shows "\<exists>e'. security_loop E sdata acc = Inl e'"
  using assms(1)
proof (induction sdata arbitrary: acc)
  case Nil
  then show ?case by simp
next
  case (Cons x sdata)
  show ?case
  proof (cases "security_case E x acc")
    case (Inl e')
    then show ?thesis by simp
  next
    case (Inr acc')
    then have "x \<noteq> s"
      using assms(2)[of acc] by auto
    then have "s \<in> set sdata"
      using Cons.prems by auto
    then show ?thesis
      using Cons.IH[of acc'] Inr by simp
  qed
qed

lemma generate_locustfile_security_error:
  "sdata \<noteq> [] \<Longrightarrow> generate_security_cases E sdata = Inl e \<Longrightarrow>
   fst (generate_locustfile E lvl vars \<lparr>paths = pd, security = Some sdata, host = h\<rparr>) = Inl e"
  by (simp add: generate_locustfile_def Let_def)

lemma header_api_key_iff:
  "header_api_key cfg \<longleftrightarrow>
     (\<exists>l. dget cfg ''in'' = PStr l \<and> lower l = ''header'') \<and> truthy (dget cfg ''name'')"
  by (auto simp: header_api_key_def split: pyval.splits)

lemma security_case_not_header:
  "\<not> header_api_key cfg \<Longrightarrow> \<exists>e. \<forall>acc. security_case E (''apiKey'', cfg) acc = Inl e"
  by (cases "dget cfg ''in''") (auto simp: security_case_def header_api_key_def)

text \<open>
  C2, as the code has it. An entry whose type is neither \<open>BasicAuth\<close> nor \<open>apiKey\<close> is
  skipped: the builder returns what it returns without such entries. An \<open>apiKey\<close> entry
  passes, and contributes its fragment, exactly when its location is a string that
  lower-cases to \<open>header\<close> and its name is truthy. Every other \<open>apiKey\<close> entry makes the
  builder fail, wherever it stands in the mapping. When the location of such an entry is
  a string, its error is \<open>ValueError\<close> with its configuration, and that is the error of
  the builder when the entries before it pass. Whatever error the builder raises is the
  result of \<open>generate_locustfile\<close>: no script is returned.
\<close>

theorem rejected_api_key_aborts_generation:
  "(t \<noteq> ''BasicAuth'' \<and> t \<noteq> ''apiKey'' \<longrightarrow> security_case E (t, cfg) acc = Inr acc)
   \<and> generate_security_cases E sdata =
       generate_security_cases E (filter (\<lambda>(t, c). t = ''BasicAuth'' \<or> t = ''apiKey'') sdata)
   \<and> (header_api_key cfg \<longleftrightarrow>
         (\<exists>l. dget cfg ''in'' = PStr l \<and> lower l = ''header'') \<and> truthy (dget cfg ''name''))
   \<and> (header_api_key cfg \<longrightarrow>
         security_case E (''apiKey'', cfg) acc =
           Inr (acc @ [AUTH_KEY_HEADER_TEMPLATE E (dget cfg ''name'')]))
   \<and> (\<not> header_api_key cfg \<longrightarrow>
         (\<exists>e. security_case E (''apiKey'', cfg) acc = Inl e)
         \<and> ((''apiKey'', cfg) \<in> set sdata \<longrightarrow>
               (\<exists>e. generate_security_cases E sdata = Inl e \<and>
                    fst (generate_locustfile E lvl vars
                          \<lparr>paths = pd, security = Some sdata, host = h\<rparr>) = Inl e)))
   \<and> (\<not> header_api_key cfg \<and> dget cfg ''in'' = PStr l \<longrightarrow>
         security_case E (''apiKey'', cfg) acc = Inl (ValueError (SecurityConfig cfg))
         \<and> (\<forall>pre post acc'. security_loop E pre [] = Inr acc' \<longrightarrow>
               generate_security_cases E (pre @ (''apiKey'', cfg) # post) =
                 Inl (ValueError (SecurityConfig cfg))))
   \<and> (sdata \<noteq> [] \<and> generate_security_cases E sdata = Inl e' \<longrightarrow>
         fst (generate_locustfile E lvl vars
               \<lparr>paths = pd, security = Some sdata, host = h\<rparr>) = Inl e')"
proof -
  have skip: "generate_security_cases E sdata =
      generate_security_cases E (filter (\<lambda>(t, c). t = ''BasicAuth'' \<or> t = ''apiKey'') sdata)"
    by (simp add: generate_security_cases_def security_loop_filter)
  have pass: "security_case E (''apiKey'', cfg) acc =
      Inr (acc @ [AUTH_KEY_HEADER_TEMPLATE E (dget cfg ''name'')])" if "header_api_key cfg"
    using that security_case_header_key[of cfg _ E acc] by (auto simp: header_api_key_iff)
  have bad: "\<not> (lower l = ''header'' \<and> truthy (dget cfg ''name''))"
    if "\<not> header_api_key cfg" "dget cfg ''in'' = PStr l"
    using that by (simp add: header_api_key_def)
  have val: "security_case E (''apiKey'', cfg) acc = Inl (ValueError (SecurityConfig cfg))"
    if "\<not> header_api_key cfg" "dget cfg ''in'' = PStr l"
    using security_case_bad_key[OF that(2) bad[OF that]] .
  have first: "generate_security_cases E (pre @ (''apiKey'', cfg) # post) =
      Inl (ValueError (SecurityConfig cfg))"
    if "\<not> header_api_key cfg" "dget cfg ''in'' = PStr l"
      "security_loop E pre [] = Inr acc'" for pre post acc'
    using that(3) security_case_bad_key[OF that(2) bad[OF that(1,2)]]
    by (simp add: generate_security_cases_def security_loop_append)
  have one: "\<exists>e. security_case E (''apiKey'', cfg) acc = Inl e" if "\<not> header_api_key cfg"
    using security_case_not_header[OF that, of E] by blast
  have any: "\<exists>e. generate_security_cases E sdata = Inl e \<and>
      fst (generate_locustfile E lvl vars \<lparr>paths = pd, security = Some sdata, host = h\<rparr>) = Inl e"
    if nh: "\<not> header_api_key cfg" and mem: "(''apiKey'', cfg) \<in> set sdata"
  proof -
    obtain e0 where e0: "\<And>acc. security_case E (''apiKey'', cfg) acc = Inl e0"
      using security_case_not_header[OF nh, of E] by blast
    obtain e where "security_loop E sdata [] = Inl e"
      using security_loop_fails[OF mem, of E e0 "[]"] e0 by blast
    then have e: "generate_security_cases E sdata = Inl e"
      by (simp add: generate_security_cases_def)
    have "sdata \<noteq> []"
      using mem by auto
    then show ?thesis
      using e generate_locustfile_security_error[of sdata E e lvl vars pd h] by blast
  qed
  show ?thesis
    using skip pass val first one any security_case_other[of t E cfg acc]
      header_api_key_iff[of cfg]
      generate_locustfile_security_error[of sdata E e' lvl vars pd h]
    by blast
qed

theorem rejected_api_key_aborts_generation_witness:
  "security_case example_env (''OAuth2'', example_oauth) [] = Inr []
   \<and> security_case example_env (''apiKey'', example_query_key) [] =
       Inl (ValueError (SecurityConfig example_query_key))
   \<and> fst (generate_locustfile example_env 0 []
        \<lparr>paths = [], security = Some [(''BasicAuth'', []), (''apiKey'', example_query_key)],
         host = ''h''\<rparr>) = Inl (ValueError (SecurityConfig example_query_key))
   \<and> (\<exists>e. fst (generate_locustfile example_env 0 []
        \<lparr>paths = [], security = Some [(''BasicAuth'', []), (''apiKey'', example_bare_key)],
         host = ''h''\<rparr>) = Inl e)
   \<and> security_case example_env (''apiKey'', example_header_key) [] = Inr [''key X-Key;'']"
proof -
  let ?sd = "[(''BasicAuth'', []), (''apiKey'', example_query_key)]"
  let ?sb = "[(''BasicAuth'', []), (''apiKey'', example_bare_key)]"
  note q = rejected_api_key_aborts_generation
    [where E = example_env and t = "''OAuth2''" and cfg = example_query_key and acc = "[]"
       and l = "''query''" and sdata = ?sd and lvl = 0 and vars = "[]" and pd = "[]"
       and h = "''h''" and e' = "ValueError (SecurityConfig example_query_key)"]
  note o = rejected_api_key_aborts_generation
    [where E = example_env and t = "''OAuth2''" and cfg = example_oauth and acc = "[]"]
  note k = rejected_api_key_aborts_generation
    [where E = example_env and cfg = example_header_key and acc = "[]"]
  note bk = rejected_api_key_aborts_generation
    [where E = example_env and cfg = example_bare_key and sdata = ?sb and lvl = 0
       and vars = "[]" and pd = "[]" and h = "''h''"]
  note o1 = o[THEN conjunct1]
  note k4 = k[THEN conjunct2, THEN conjunct2, THEN conjunct2, THEN conjunct1]
  note b5 = bk[THEN conjunct2, THEN conjunct2, THEN conjunct2, THEN conjunct2, THEN conjunct1]
  note q6 = q[THEN conjunct2, THEN conjunct2, THEN conjunct2, THEN conjunct2, THEN conjunct2,
    THEN conjunct1]
  note q7 = q[THEN conjunct2, THEN conjunct2, THEN conjunct2, THEN conjunct2, THEN conjunct2,
    THEN conjunct2]
  have qloc: "dget example_query_key ''in'' = PStr ''query''"
    and qn: "\<not> header_api_key example_query_key"
    by (simp_all add: example_query_key_def dget_def header_api_key_def lower_def
        lower_char_def)
  have bn: "\<not> header_api_key example_bare_key"
    and bm: "(''apiKey'', example_bare_key) \<in> set ?sb"
    by (simp_all add: example_bare_key_def dget_def header_api_key_def)
  have kh: "header_api_key example_header_key"
    and kn: "dget example_header_key ''name'' = PStr ''X-Key''"
    by (simp_all add: example_header_key_def dget_def header_api_key_def lower_def
        lower_char_def)
  have a: "security_case example_env (''OAuth2'', example_oauth) [] = Inr []"
    using o1 by simp
  note q6' = q6[THEN mp, OF conjI[OF qn qloc]]
  have b: "security_case example_env (''apiKey'', example_query_key) [] =
      Inl (ValueError (SecurityConfig example_query_key))"
    by (rule q6'[THEN conjunct1])
  have pre: "security_loop example_env [(''BasicAuth'', [])] [] = Inr [''basic;'']"
    by (simp add: security_case_def example_env_fields)
  from q6'[THEN conjunct2, rule_format, OF pre, of "[]"]
  have gs: "generate_security_cases example_env ?sd =
      Inl (ValueError (SecurityConfig example_query_key))"
    by simp
  have c: "fst (generate_locustfile example_env 0 []
      \<lparr>paths = [], security = Some ?sd, host = ''h''\<rparr>) =
      Inl (ValueError (SecurityConfig example_query_key))"
    using q7 gs by simp
  have c': "\<exists>e. fst (generate_locustfile example_env 0 []
      \<lparr>paths = [], security = Some ?sb, host = ''h''\<rparr>) = Inl e"
    using b5[THEN mp, OF bn, THEN conjunct2, THEN mp, OF bm] by (elim exE conjE) (rule exI)
  have "security_case example_env (''apiKey'', example_header_key) [] =
      Inr ([] @ [AUTH_KEY_HEADER_TEMPLATE example_env (dget example_header_key ''name'')])"
    by (rule k4[THEN mp, OF kh])
  then have d: "security_case example_env (''apiKey'', example_header_key) [] =
      Inr [''key X-Key;'']"
    by (simp add: kn example_env_fields example_key_def)
  show ?thesis
    by (intro conjI a b c c' d)
qed

text \<open>
  The claim as the specification states it fails on a scheme of another type: the
  builder returns the empty text for it and the run ends with a script.
\<close>

theorem unknown_scheme_type_is_accepted:
  "generate_security_cases example_env [(''OAuth2'', example_oauth)] = Inr ''''
   \<and> fst (generate_locustfile example_env 0 []
        \<lparr>paths = [], security = Some [(''OAuth2'', example_oauth)], host = ''h''\<rparr>) =
       Inr ''|||h''"
  by (simp add: generate_locustfile_def generate_test_cases_def run_operations_def
      generate_security_cases_def security_case_def generate_code_from_template_def
      example_env_fields Let_def)


end
